theory Spec2Isabelle
  imports Main "HOL-Library.Sublist"
begin

section \<open>Python values used by archive.py\<close>

text \<open>
  The model follows CPython 3.11 on a POSIX system whose locale and file system encoding are
  UTF-8, with line separator LF and the default limit of 4300 digits for the conversion
  between \<open>int\<close> and \<open>str\<close>.

  A Python \<open>str\<close> is a sequence of Unicode code points, so \<open>len\<close> counts code points
  and not bytes. A \<open>bytes\<close> object is a sequence of numbers below 256.
\<close>

type_synonym pystr = "nat list"
type_synonym byte = nat
type_synonym pybytes = "byte list"

text \<open>The exceptions the modelled code can raise. \<open>UnicodeEncodeError\<close> and
  \<open>UnicodeDecodeError\<close> are subclasses of \<open>ValueError\<close> in Python and are caught by
  \<open>except ValueError\<close>; they are modelled as \<open>ValueError\<close>. \<open>OSError\<close> stands for its
  subclasses as well (\<open>FileNotFoundError\<close>, \<open>PermissionError\<close>, \<open>IsADirectoryError\<close>).\<close>

datatype py_exc = ValueError | OverflowError | IndexError | OSError

definition ascii :: "string \<Rightarrow> pystr" where
  "ascii s = map of_char s"

subsection \<open>Slicing, indexing and repetition\<close>

definition py_slice :: "'a list \<Rightarrow> int \<Rightarrow> int \<Rightarrow> 'a list" where
  \<comment> \<open>\<open>xs[i:j]\<close>: negative bounds count from the end, then both are clamped.\<close>
  "py_slice xs i j =
     (let n = int (length xs);
          i' = (if i < 0 then max 0 (n + i) else min n i);
          j' = (if j < 0 then max 0 (n + j) else min n j)
      in take (nat (j' - i')) (drop (nat i') xs))"

definition py_index :: "'a list \<Rightarrow> int \<Rightarrow> py_exc + 'a" where
  \<comment> \<open>\<open>xs[i]\<close>: the index \<open>-k\<close> is the k-th element from the end; IndexError outside\<close>
  "py_index xs i =
     (if 0 \<le> i \<and> i < int (length xs) then Inr (xs ! nat i)
      else if i < 0 \<and> - int (length xs) \<le> i then Inr (xs ! nat (int (length xs) + i))
      else Inl IndexError)"

definition py_repeat :: "'a \<Rightarrow> int \<Rightarrow> 'a list" where
  \<comment> \<open>\<open>[x] * k\<close>, empty when \<open>k \<le> 0\<close>.\<close>
  "py_repeat x k = replicate (nat k) x"

subsection \<open>\<open>str.strip\<close>, \<open>str.split(sep)\<close> and \<open>str.join\<close>\<close>

text \<open>The characters that \<open>str.strip()\<close> removes: those for which \<open>str.isspace\<close> holds.\<close>

definition py_isspace :: "nat \<Rightarrow> bool" where
  "py_isspace c \<longleftrightarrow>
     (9 \<le> c \<and> c \<le> 13) \<or> (28 \<le> c \<and> c \<le> 32) \<or> c = 133 \<or> c = 160 \<or> c = 5760
     \<or> (8192 \<le> c \<and> c \<le> 8202) \<or> c = 8232 \<or> c = 8233 \<or> c = 8239 \<or> c = 8287
     \<or> c = 12288"

definition py_strip :: "pystr \<Rightarrow> pystr" where
  "py_strip s = rev (dropWhile py_isspace (rev (dropWhile py_isspace s)))"

fun split_acc :: "nat \<Rightarrow> pystr \<Rightarrow> pystr \<Rightarrow> pystr list" where
  "split_acc sep cur [] = [rev cur]"
| "split_acc sep cur (c # cs) =
     (if c = sep then rev cur # split_acc sep [] cs else split_acc sep (c # cur) cs)"

definition py_split :: "nat \<Rightarrow> pystr \<Rightarrow> pystr list" where
  \<comment> \<open>\<open>s.split(sep)\<close> for a one-character separator: never an empty list.\<close>
  "py_split sep s = split_acc sep [] s"

fun py_join :: "pystr \<Rightarrow> pystr list \<Rightarrow> pystr" where
  "py_join sep [] = []"
| "py_join sep [x] = x"
| "py_join sep (x # y # ys) = x @ sep @ py_join sep (y # ys)"

subsection \<open>\<open>int(s)\<close>\<close>

text \<open>
  \<open>int(s)\<close> removes surrounding whitespace, reads an optional sign \<open>+\<close> or \<open>-\<close> and then
  decimal digits, where single underscores may stand between digits. Any other text raises
  ValueError, modelled as \<open>None\<close>.

  The whitespace of \<open>int\<close> is not that of \<open>strip\<close>: the separators U+001C to U+001F are
  whitespace for \<open>strip\<close> and an error for \<open>int\<close>.
\<close>

definition int_space :: "nat \<Rightarrow> bool" where
  "int_space c \<longleftrightarrow>
     (9 \<le> c \<and> c \<le> 13) \<or> c = 32 \<or> c = 133 \<or> c = 160 \<or> c = 5760
     \<or> (8192 \<le> c \<and> c \<le> 8202) \<or> c = 8232 \<or> c = 8233 \<or> c = 8239 \<or> c = 8287
     \<or> c = 12288"

definition int_strip :: "pystr \<Rightarrow> pystr" where
  "int_strip s = rev (dropWhile int_space (rev (dropWhile int_space s)))"

text \<open>
  A digit is any character of the Unicode category Nd. In Unicode 14, the version of
  Python 3.11, these are 66 runs of ten consecutive code points, each run the digits 0 to 9
  of one script; \<open>digit_zeros\<close> lists the first code point of every run.
\<close>

definition digit_zeros :: "nat list" where
  "digit_zeros =
     [48, 1632, 1776, 1984, 2406, 2534, 2662, 2790, 2918, 3046, 3174, 3302, 3430, 3558,
      3664, 3792, 3872, 4160, 4240, 6112, 6160, 6470, 6608, 6784, 6800, 6992, 7088, 7232,
      7248, 42528, 43216, 43264, 43472, 43504, 43600, 44016, 65296, 66720, 68912, 69734,
      69872, 69942, 70096, 70384, 70736, 70864, 71248, 71360, 71472, 71904, 72016, 72784,
      73040, 73120, 92768, 92864, 93008, 120782, 120792, 120802, 120812, 120822, 123200,
      123632, 125264, 130032]"

definition decimal_value :: "nat \<Rightarrow> nat option" where
  "decimal_value c =
     (case find (\<lambda>z. z \<le> c \<and> c < z + 10) digit_zeros of
        None \<Rightarrow> None
      | Some z \<Rightarrow> Some (c - z))"

fun digits_value :: "nat \<Rightarrow> pystr \<Rightarrow> nat option" where
  \<comment> \<open>the digits after a digit has been read: \<open>acc\<close> is the value so far\<close>
  "digits_value acc [] = Some acc"
| "digits_value acc (c # cs) =
     (case decimal_value c of
        Some d \<Rightarrow> digits_value (10 * acc + d) cs
      | None \<Rightarrow>
          if c = 95 then
            (case cs of
               [] \<Rightarrow> None
             | c2 # cs2 \<Rightarrow>
                 (case decimal_value c2 of
                    Some d \<Rightarrow> digits_value (10 * acc + d) cs2
                  | None \<Rightarrow> None))
          else None)"

definition unsigned_value :: "pystr \<Rightarrow> nat option" where
  "unsigned_value s =
     (case s of
        [] \<Rightarrow> None
      | c # cs \<Rightarrow> (case decimal_value c of Some d \<Rightarrow> digits_value d cs | None \<Rightarrow> None))"

fun digit_count :: "pystr \<Rightarrow> nat" where
  "digit_count [] = 0"
| "digit_count (c # cs) =
     (case decimal_value c of None \<Rightarrow> digit_count cs | Some d \<Rightarrow> Suc (digit_count cs))"

definition MAX_STR_DIGITS :: nat where "MAX_STR_DIGITS = 4300"

definition py_int :: "pystr \<Rightarrow> int option" where
  \<comment> \<open>a text of more than 4300 digits raises ValueError as well; leading zeros count\<close>
  "py_int s =
     (case int_strip s of
        [] \<Rightarrow> None
      | c # cs \<Rightarrow>
          if MAX_STR_DIGITS < digit_count (c # cs) then None
          else if c = 45 then map_option (\<lambda>n. - int n) (unsigned_value cs)
          else if c = 43 then map_option int (unsigned_value cs)
          else map_option int (unsigned_value (c # cs)))"

subsection \<open>\<open>str(n)\<close>\<close>

fun nat_digits :: "nat \<Rightarrow> pystr" where
  "nat_digits n = (if n < 10 then [48 + n] else nat_digits (n div 10) @ [48 + n mod 10])"

declare nat_digits.simps [simp del]

definition int_text :: "int \<Rightarrow> pystr" where
  \<comment> \<open>the decimal text of an integer\<close>
  "int_text i = (if i < 0 then 45 # nat_digits (nat (- i)) else nat_digits (nat i))"

definition py_str :: "int \<Rightarrow> py_exc + pystr" where
  \<comment> \<open>\<open>str(n)\<close> for an int: ValueError when the text has more than 4300 digits\<close>
  "py_str i =
     (if MAX_STR_DIGITS < length (nat_digits (nat \<bar>i\<bar>)) then Inl ValueError
      else Inr (int_text i))"

subsection \<open>UTF-8\<close>

text \<open>\<open>s.encode("utf-8")\<close>: a surrogate code point raises UnicodeEncodeError. A Python
  string holds no code point above 0x10FFFF; the model raises there as well.\<close>

definition encode_cp :: "nat \<Rightarrow> py_exc + pybytes" where
  "encode_cp c =
     (if c < 0x80 then Inr [c]
      else if c < 0x800 then Inr [0xC0 + c div 64, 0x80 + c mod 64]
      else if 0xD800 \<le> c \<and> c < 0xE000 then Inl ValueError
      else if c < 0x10000 then
        Inr [0xE0 + c div 4096, 0x80 + (c div 64) mod 64, 0x80 + c mod 64]
      else if c < 0x110000 then
        Inr [0xF0 + c div 262144, 0x80 + (c div 4096) mod 64,
             0x80 + (c div 64) mod 64, 0x80 + c mod 64]
      else Inl ValueError)"

fun utf8_encode :: "pystr \<Rightarrow> py_exc + pybytes" where
  "utf8_encode [] = Inr []"
| "utf8_encode (c # cs) =
     (case encode_cp c of
        Inl e \<Rightarrow> Inl e
      | Inr bs \<Rightarrow> (case utf8_encode cs of Inl e \<Rightarrow> Inl e | Inr rest \<Rightarrow> Inr (bs @ rest)))"

definition is_cont :: "byte \<Rightarrow> bool" where
  "is_cont b \<longleftrightarrow> 0x80 \<le> b \<and> b < 0xC0"

text \<open>
  \<open>b.decode("utf-8", errors="ignore")\<close>. The decoder reads the shortest-form sequences
  only (no overlong form, no surrogate, nothing above 0x10FFFF). At an invalid start byte
  it drops that byte; at an invalid continuation byte it drops the bytes read before it and
  goes on at the offending byte; a sequence cut off by the end of the input is dropped.
  Nothing is put in place of what is dropped.
\<close>

fun utf8_decode_ignore :: "pybytes \<Rightarrow> pystr" where
  "utf8_decode_ignore [] = []"
| "utf8_decode_ignore (b # bs) =
     (if b < 0x80 then b # utf8_decode_ignore bs
      else if b < 0xC2 then utf8_decode_ignore bs
      else if b < 0xE0 then
        (case bs of [] \<Rightarrow> []
         | b2 # r2 \<Rightarrow>
             if is_cont b2 then ((b - 0xC0) * 64 + (b2 - 0x80)) # utf8_decode_ignore r2
             else utf8_decode_ignore bs)
      else if b < 0xF0 then
        (case bs of [] \<Rightarrow> []
         | b2 # r2 \<Rightarrow>
             if \<not> is_cont b2 \<or> (b = 0xE0 \<and> b2 < 0xA0) \<or> (b = 0xED \<and> 0xA0 \<le> b2)
             then utf8_decode_ignore bs
             else (case r2 of [] \<Rightarrow> []
                   | b3 # r3 \<Rightarrow>
                       if is_cont b3
                       then ((b - 0xE0) * 4096 + (b2 - 0x80) * 64 + (b3 - 0x80))
                            # utf8_decode_ignore r3
                       else utf8_decode_ignore r2))
      else if b < 0xF5 then
        (case bs of [] \<Rightarrow> []
         | b2 # r2 \<Rightarrow>
             if \<not> is_cont b2 \<or> (b = 0xF0 \<and> b2 < 0x90) \<or> (b = 0xF4 \<and> 0x90 \<le> b2)
             then utf8_decode_ignore bs
             else (case r2 of [] \<Rightarrow> []
                   | b3 # r3 \<Rightarrow>
                       if \<not> is_cont b3 then utf8_decode_ignore r2
                       else (case r3 of [] \<Rightarrow> []
                             | b4 # r4 \<Rightarrow>
                                 if is_cont b4
                                 then ((b - 0xF0) * 262144 + (b2 - 0x80) * 4096
                                       + (b3 - 0x80) * 64 + (b4 - 0x80))
                                      # utf8_decode_ignore r4
                                 else utf8_decode_ignore r3)))
      else utf8_decode_ignore bs)"

text \<open>
  The strict decoder, which a file opened in text mode uses: the same sequences are read,
  and every place where the lenient decoder drops bytes raises UnicodeDecodeError.
\<close>

definition decoded :: "nat \<Rightarrow> py_exc + pystr \<Rightarrow> py_exc + pystr" where
  "decoded c r = (case r of Inl e \<Rightarrow> Inl e | Inr cs \<Rightarrow> Inr (c # cs))"

fun utf8_decode :: "pybytes \<Rightarrow> py_exc + pystr" where
  "utf8_decode [] = Inr []"
| "utf8_decode (b # bs) =
     (if b < 0x80 then decoded b (utf8_decode bs)
      else if b < 0xC2 then Inl ValueError
      else if b < 0xE0 then
        (case bs of [] \<Rightarrow> Inl ValueError
         | b2 # r2 \<Rightarrow>
             if is_cont b2 then decoded ((b - 0xC0) * 64 + (b2 - 0x80)) (utf8_decode r2)
             else Inl ValueError)
      else if b < 0xF0 then
        (case bs of [] \<Rightarrow> Inl ValueError
         | b2 # r2 \<Rightarrow>
             if \<not> is_cont b2 \<or> (b = 0xE0 \<and> b2 < 0xA0) \<or> (b = 0xED \<and> 0xA0 \<le> b2)
             then Inl ValueError
             else (case r2 of [] \<Rightarrow> Inl ValueError
                   | b3 # r3 \<Rightarrow>
                       if is_cont b3
                       then decoded ((b - 0xE0) * 4096 + (b2 - 0x80) * 64 + (b3 - 0x80))
                              (utf8_decode r3)
                       else Inl ValueError))
      else if b < 0xF5 then
        (case bs of [] \<Rightarrow> Inl ValueError
         | b2 # r2 \<Rightarrow>
             if \<not> is_cont b2 \<or> (b = 0xF0 \<and> b2 < 0x90) \<or> (b = 0xF4 \<and> 0x90 \<le> b2)
             then Inl ValueError
             else (case r2 of [] \<Rightarrow> Inl ValueError
                   | b3 # r3 \<Rightarrow>
                       if \<not> is_cont b3 then Inl ValueError
                       else (case r3 of [] \<Rightarrow> Inl ValueError
                             | b4 # r4 \<Rightarrow>
                                 if is_cont b4
                                 then decoded ((b - 0xF0) * 262144 + (b2 - 0x80) * 4096
                                               + (b3 - 0x80) * 64 + (b4 - 0x80))
                                        (utf8_decode r4)
                                 else Inl ValueError)))
      else Inl ValueError)"

definition rstrip_zero :: "pybytes \<Rightarrow> pybytes" where
  \<comment> \<open>\<open>chunk.rstrip(b'\x00')\<close>\<close>
  "rstrip_zero bs = rev (dropWhile (\<lambda>b. b = 0) (rev bs))"

section \<open>Record layout\<close>

definition NUM_SLOTS :: nat where "NUM_SLOTS = 10"
definition PAGE_HEADER_SIZE :: nat where "PAGE_HEADER_SIZE = 1 + NUM_SLOTS"
definition MAX_PAGES :: int where "MAX_PAGES = 1000"

definition int_to_bytes :: "int \<Rightarrow> py_exc + pybytes" where
  \<comment> \<open>\<open>x.to_bytes(4, "big", signed=True)\<close>: OverflowError outside 32 bits\<close>
  "int_to_bytes x =
     (if - (2 ^ 31) \<le> x \<and> x < 2 ^ 31
      then Inr [nat ((x div 16777216) mod 256), nat ((x div 65536) mod 256),
                nat ((x div 256) mod 256), nat (x mod 256)]
      else Inl OverflowError)"

definition unsigned_be :: "pybytes \<Rightarrow> nat" where
  "unsigned_be bs = foldl (\<lambda>acc b. 256 * acc + b) 0 bs"

definition bytes_to_int :: "pybytes \<Rightarrow> int" where
  \<comment> \<open>\<open>int.from_bytes(b, "big", signed=True)\<close>, for any length of \<open>b\<close>\<close>
  "bytes_to_int bs =
     (let u = int (unsigned_be bs); n = length bs
      in if n > 0 \<and> 2 ^ (8 * n - 1) \<le> u then u - 2 ^ (8 * n) else u)"

text \<open>A field is the tuple \<open>(fname, ftype, flen)\<close> of the catalog.\<close>

type_synonym field = "pystr \<times> pystr \<times> int"

fun compute_record_size :: "field list \<Rightarrow> int" where
  "compute_record_size [] = 1"
| "compute_record_size ((fname, ftype, flen) # fs) = flen + compute_record_size fs"

text \<open>The body of the loop of \<open>pack_record\<close>: the bytes of one field. A value that
  fails \<open>int\<close> raises ValueError, one that does not fit in 4 bytes raises OverflowError.\<close>

definition pack_value :: "field \<Rightarrow> pystr \<Rightarrow> py_exc + pybytes" where
  "pack_value f val = (case f of (fname, ftype, flen) \<Rightarrow>
     if ftype = ascii ''int''
     then (case py_int val of None \<Rightarrow> Inl ValueError | Some ival \<Rightarrow> int_to_bytes ival)
     else (case utf8_encode val of
             Inl e \<Rightarrow> Inl e
           | Inr s0 \<Rightarrow>
               (let s = (if int (length s0) > flen then py_slice s0 0 flen else s0)
                in Inr (s @ py_repeat 0 (flen - int (length s))))))"

text \<open>The loop over \<open>zip(fields, values)\<close>, which stops at the shorter list.\<close>

fun pack_fields :: "field list \<Rightarrow> pystr list \<Rightarrow> py_exc + pybytes" where
  "pack_fields (f # fs) (val # vals) =
     (case pack_value f val of
        Inl e \<Rightarrow> Inl e
      | Inr bs \<Rightarrow> (case pack_fields fs vals of Inl e \<Rightarrow> Inl e | Inr rest \<Rightarrow> Inr (bs @ rest)))"
| "pack_fields _ _ = Inr []"

definition pack_record :: "field list \<Rightarrow> pystr list \<Rightarrow> py_exc + pybytes" where
  \<comment> \<open>the first byte is the validity byte 1\<close>
  "pack_record fields vals =
     (case pack_fields fields vals of Inl e \<Rightarrow> Inl e | Inr bs \<Rightarrow> Inr (1 # bs))"

text \<open>The body of the loop of \<open>unpack_record\<close>, on the chunk of one field. \<open>str\<close> raises
  ValueError on an integer of more than 4300 digits, which a chunk of 1786 bytes can hold.\<close>

definition unpack_value :: "pystr \<Rightarrow> pybytes \<Rightarrow> py_exc + pystr" where
  "unpack_value ftype chunk =
     (if ftype = ascii ''int'' then py_str (bytes_to_int chunk)
      else Inr (utf8_decode_ignore (rstrip_zero chunk)))"

fun unpack_fields :: "field list \<Rightarrow> pybytes \<Rightarrow> int \<Rightarrow> py_exc + pystr list" where
  "unpack_fields [] record_bytes offset = Inr []"
| "unpack_fields ((fname, ftype, flen) # fs) record_bytes offset =
     (case unpack_value ftype (py_slice record_bytes offset (offset + flen)) of
        Inl e \<Rightarrow> Inl e
      | Inr v \<Rightarrow>
          (case unpack_fields fs record_bytes (offset + flen) of
             Inl e \<Rightarrow> Inl e
           | Inr vs \<Rightarrow> Inr (v # vs)))"

definition unpack_record :: "field list \<Rightarrow> pybytes \<Rightarrow> py_exc + pystr list" where
  \<comment> \<open>the offset starts at 1: the validity byte is skipped\<close>
  "unpack_record fields record_bytes = unpack_fields fields record_bytes 1"

section \<open>The catalog\<close>

text \<open>One entry of the dict that \<open>read_catalog\<close> returns.\<close>

datatype entry = Entry (e_num_fields: int) (e_pk_index: int) (e_fields: "field list")

type_synonym catalog = "pystr \<rightharpoonup> entry"

definition parse_field :: "pystr \<Rightarrow> field option" where
  \<comment> \<open>\<open>fname, ftype, flen_str = fld.split(",")\<close> and \<open>int(flen_str)\<close>; None is ValueError\<close>
  "parse_field fld =
     (case py_split 44 fld of
        [fname, ftype, flen_str] \<Rightarrow>
          (case py_int flen_str of None \<Rightarrow> None | Some flen \<Rightarrow> Some (fname, ftype, flen))
      | _ \<Rightarrow> None)"

fun parse_fields :: "pystr list \<Rightarrow> field list option" where
  "parse_fields [] = Some []"
| "parse_fields (fld # flds) =
     (case parse_field fld of
        None \<Rightarrow> None
      | Some fd \<Rightarrow> (case parse_fields flds of None \<Rightarrow> None | Some fds \<Rightarrow> Some (fd # fds)))"

definition parse_line :: "pystr \<Rightarrow> (pystr \<times> entry) option" where
  \<comment> \<open>one stripped, non-empty line; None where the source goes on to the next line\<close>
  "parse_line line =
     (case py_split 124 line of
        tname # nf_str # pk_str # flds \<Rightarrow>
          (case py_int nf_str of
             None \<Rightarrow> None
           | Some nf \<Rightarrow>
               (case py_int pk_str of
                  None \<Rightarrow> None
                | Some pk \<Rightarrow>
                    (case parse_fields flds of
                       None \<Rightarrow> None
                     | Some fds \<Rightarrow>
                         if int (length fds) \<noteq> nf then None
                         else Some (tname,
                                Entry nf pk fds))))
      | _ \<Rightarrow> None)"

fun load_lines :: "catalog \<Rightarrow> pystr list \<Rightarrow> catalog" where
  "load_lines cat [] = cat"
| "load_lines cat (l # ls) =
     (let line = py_strip l
      in if line = [] then load_lines cat ls
         else (case parse_line line of
                 None \<Rightarrow> load_lines cat ls
               | Some (tname, e) \<Rightarrow> load_lines (cat(tname \<mapsto> e)) ls))"

text \<open>
  A file opened in text mode gives its lines with universal newlines: CR LF and a lone CR
  both end a line and are read as LF.
\<close>

fun universal_newlines :: "pystr \<Rightarrow> pystr" where
  "universal_newlines [] = []"
| "universal_newlines [c] = [if c = 13 then 10 else c]"
| "universal_newlines (c # d # cs) =
     (if c = 13 \<and> d = 10 then 10 # universal_newlines cs
      else (if c = 13 then 10 else c) # universal_newlines (d # cs))"

text \<open>
  \<open>read_catalog\<close> on the bytes of catalog.meta. The bytes are decoded as UTF-8; a byte
  sequence that is not UTF-8 raises UnicodeDecodeError in the iteration over the file, which
  is outside the \<open>try\<close> of the loop body, so the exception leaves \<open>read_catalog\<close>. The loop
  has no effect but on the dict it builds, so decoding the file at once and decoding it in
  blocks as the lines are read give the same result. The lines are cut after every LF; the
  LF that ends a line and the empty text after the last LF are removed by \<open>strip\<close>.
\<close>

definition read_catalog :: "pybytes \<Rightarrow> py_exc + catalog" where
  "read_catalog content =
     (case utf8_decode content of
        Inl e \<Rightarrow> Inl e
      | Inr text \<Rightarrow> Inr (load_lines Map.empty (py_split 10 (universal_newlines text))))"

text \<open>The line that \<open>write_catalog_entry\<close> builds, with \<open>str\<close> for the three kinds of
  numbers.\<close>

fun field_texts :: "field list \<Rightarrow> py_exc + pystr list" where
  "field_texts [] = Inr []"
| "field_texts ((fname, ftype, flen) # fs) =
     (case py_str flen of
        Inl e \<Rightarrow> Inl e
      | Inr t \<Rightarrow>
          (case field_texts fs of
             Inl e \<Rightarrow> Inl e
           | Inr ts \<Rightarrow> Inr ((fname @ [44] @ ftype @ [44] @ t) # ts)))"

definition catalog_line :: "pystr \<Rightarrow> int \<Rightarrow> int \<Rightarrow> field list \<Rightarrow> py_exc + pystr" where
  "catalog_line tname num_fields pk_index fields_list =
     (case py_str num_fields of
        Inl e \<Rightarrow> Inl e
      | Inr nf_text \<Rightarrow>
          (case py_str pk_index of
             Inl e \<Rightarrow> Inl e
           | Inr pk_text \<Rightarrow>
               (case field_texts fields_list of
                  Inl e \<Rightarrow> Inl e
                | Inr ts \<Rightarrow> Inr (py_join [124] ([tname, nf_text, pk_text] @ ts) @ [10]))))"

section \<open>The files\<close>

text \<open>
  The state is the bytes of catalog.meta, the regular files of the working directory by
  name, and the refusals of the operating system: \<open>refused s name mode\<close> holds when opening
  the path in this mode fails for a reason that is not in the bytes of the files (a missing
  directory in the path, a directory of that name, a missing permission, a name that is too
  long). catalog.meta and log.csv are taken to exist and to be writable: \<open>main\<close> creates
  catalog.meta before the first command. The content of the log and of the output file is
  written and never read; it is left out.
\<close>

datatype open_mode = RB | WB | RPlusB | WPlusB

datatype store =
  Store (catalog_meta: pybytes) (dat_files: "pystr \<rightharpoonup> pybytes")
        (refused: "pystr \<Rightarrow> open_mode \<Rightarrow> bool")

definition dat_filename :: "pystr \<Rightarrow> pystr" where
  "dat_filename tname = tname @ ascii ''.dat''"

text \<open>
  A path is given to the operating system in the file system encoding, UTF-8 with the error
  handler \<open>surrogateescape\<close>: a NUL character raises ValueError, and so does a surrogate
  outside U+DC80 to U+DCFF (UnicodeEncodeError).
\<close>

definition path_char :: "nat \<Rightarrow> bool" where
  "path_char c \<longleftrightarrow>
     0 < c \<and> (c < 0xD800 \<or> (0xDC80 \<le> c \<and> c \<le> 0xDCFF) \<or> (0xE000 \<le> c \<and> c < 0x110000))"

definition isfile :: "store \<Rightarrow> pystr \<Rightarrow> bool" where
  \<comment> \<open>\<open>os.path.isfile\<close>, which is False for a path that raises ValueError\<close>
  "isfile s name \<longleftrightarrow> list_all path_char name \<and> dat_files s name \<noteq> None"

definition open_file :: "store \<Rightarrow> pystr \<Rightarrow> open_mode \<Rightarrow> py_exc + pybytes" where
  \<comment> \<open>\<open>open(name, mode)\<close>: the bytes of the file once it is open. The modes \<open>wb\<close> and
      \<open>w+b\<close> create the file or empty it; \<open>rb\<close> and \<open>r+b\<close> need the file.\<close>
  "open_file s name mode =
     (if \<not> list_all path_char name then Inl ValueError
      else if refused s name mode then Inl OSError
      else if mode = WB \<or> mode = WPlusB then Inr []
      else (case dat_files s name of None \<Rightarrow> Inl OSError | Some f \<Rightarrow> Inr f))"

definition read_at :: "pybytes \<Rightarrow> int \<Rightarrow> int \<Rightarrow> py_exc + pybytes" where
  \<comment> \<open>\<open>f.seek(pos); f.read(n)\<close>: a negative position raises OSError, a size below -1
      ValueError, and -1 reads to the end\<close>
  "read_at f pos n =
     (if pos < 0 then Inl OSError
      else if n < - 1 then Inl ValueError
      else if n = - 1 then Inr (drop (nat pos) f)
      else Inr (take (nat n) (drop (nat pos) f)))"

definition write_at :: "pybytes \<Rightarrow> int \<Rightarrow> pybytes \<Rightarrow> py_exc + pybytes" where
  \<comment> \<open>\<open>f.seek(pos); f.write(bs)\<close>: the gap to a position past the end is filled with zeros\<close>
  "write_at f pos bs =
     (if pos < 0 then Inl OSError
      else if bs = [] then Inr f
      else if nat pos \<le> length f
        then Inr (take (nat pos) f @ bs @ drop (nat pos + length bs) f)
      else Inr (f @ replicate (nat pos - length f) 0 @ bs))"

definition page_size_of :: "field list \<Rightarrow> int" where
  \<comment> \<open>\<open>page_size = PAGE_HEADER_SIZE + NUM_SLOTS * rec_size\<close>\<close>
  "page_size_of fields = int PAGE_HEADER_SIZE + int NUM_SLOTS * compute_record_size fields"

text \<open>
  The handlers return True, False, a list of values or None. \<open>outcome\<close> also names the
  return statement: \<open>Success\<close> is True, \<open>Found\<close> the list of values, and every other outcome
  is False (None for a search); \<open>Rejected\<close> carries the check of the request that failed.
  \<open>Raised\<close> is an exception that leaves the handler.
\<close>

datatype reason =
    TokenCount | NotInteger | FieldCount | KeyIndex | TypeNameLength | FieldTokenCount
  | FieldNameLength | FieldKind | ValueCount

datatype outcome =
    Success | Found "pystr list"
  | Rejected reason | SchemaNotFound | DuplicateType | DuplicateKey | EncodeError
  | CapacityExceeded | RecordNotFound | IOFailure

datatype result = Returned outcome | Raised py_exc

text \<open>
  Every return statement of a handler comes right after a call of \<open>log_operation\<close>, which
  writes the tokens of the command, joined by spaces, to log.csv. The write raises
  UnicodeEncodeError when a token holds a surrogate; the handler then raises where it would
  have returned, after whatever it has written to the other files.
\<close>

definition log_operation :: "pystr list \<Rightarrow> result \<Rightarrow> result" where
  "log_operation tokens r =
     (case r of
        Raised exc \<Rightarrow> Raised exc
      | Returned out \<Rightarrow>
          (case utf8_encode (py_join [32] tokens) of
             Inl exc \<Rightarrow> Raised exc
           | Inr op_string \<Rightarrow> Returned out))"

definition logged :: "pystr list \<Rightarrow> result \<times> 'a \<Rightarrow> result \<times> 'a" where
  "logged tokens rs = (log_operation tokens (fst rs), snd rs)"

subsection \<open>\<open>find_record_page_slot\<close>\<close>

fun scan_slots ::
  "pybytes \<Rightarrow> field list \<Rightarrow> int \<Rightarrow> pystr \<Rightarrow> int \<Rightarrow> pybytes \<Rightarrow> nat list \<Rightarrow> py_exc + nat option" where
  "scan_slots f fields pk_idx pk_value page_offset slot_bitmap [] = Inr None"
| "scan_slots f fields pk_idx pk_value page_offset slot_bitmap (slot_idx # rest) =
     (if slot_bitmap ! slot_idx = 1 then
        (case read_at f (page_offset + int PAGE_HEADER_SIZE
                           + int slot_idx * compute_record_size fields)
                (compute_record_size fields) of
           Inl e \<Rightarrow> Inl e
         | Inr record_bytes \<Rightarrow>
             (case unpack_record fields record_bytes of
                Inl e \<Rightarrow> Inl e
              | Inr vals \<Rightarrow>
                  (case py_index vals pk_idx of
                     Inl e \<Rightarrow> Inl e
                   | Inr v \<Rightarrow>
                       if v = pk_value then Inr (Some slot_idx)
                       else scan_slots f fields pk_idx pk_value page_offset slot_bitmap rest)))
      else scan_slots f fields pk_idx pk_value page_offset slot_bitmap rest)"

function scan_pages ::
  "pybytes \<Rightarrow> field list \<Rightarrow> int \<Rightarrow> pystr \<Rightarrow> int \<Rightarrow> py_exc + (int \<times> nat) option" where
  "scan_pages f fields pk_idx pk_value page_offset =
     (case read_at f page_offset (int PAGE_HEADER_SIZE) of
        Inl e \<Rightarrow> Inl e
      | Inr header \<Rightarrow>
          if length header < PAGE_HEADER_SIZE then Inr None
          else if header ! 0 = 0
            then scan_pages f fields pk_idx pk_value (page_offset + page_size_of fields)
          else (case scan_slots f fields pk_idx pk_value page_offset
                       (py_slice header 1 (1 + int NUM_SLOTS)) [0..<NUM_SLOTS] of
                  Inl e \<Rightarrow> Inl e
                | Inr (Some slot_idx) \<Rightarrow> Inr (Some (page_offset, slot_idx))
                | Inr None \<Rightarrow>
                    scan_pages f fields pk_idx pk_value (page_offset + page_size_of fields)))"
  by pat_completeness auto

lemma read_at_header:
  "read_at f off (int PAGE_HEADER_SIZE) = Inr header \<Longrightarrow> \<not> length header < PAGE_HEADER_SIZE
   \<Longrightarrow> 0 \<le> off \<and> off + int PAGE_HEADER_SIZE \<le> int (length f)"
  by (auto simp: read_at_def PAGE_HEADER_SIZE_def NUM_SLOTS_def split: if_splits)

lemma page_size_nonzero: "page_size_of fields \<noteq> 0"
  by (simp add: page_size_of_def PAGE_HEADER_SIZE_def NUM_SLOTS_def) presburger

termination scan_pages
proof (relation "measure (\<lambda>(f, fields, pk_idx, pk_value, off).
    if 0 < page_size_of fields then nat (int (length f) - off) else nat (off + 1))",
    goal_cases)
  case 1
  then show ?case by simp
next
  case (2 f fields pk_idx pk_value off header)
  then show ?case
    using read_at_header [of f off header] page_size_nonzero [of fields]
    by (auto simp: PAGE_HEADER_SIZE_def NUM_SLOTS_def)
next
  case (3 f fields pk_idx pk_value off header x)
  then show ?case
    using read_at_header [of f off header] page_size_nonzero [of fields]
    by (auto simp: PAGE_HEADER_SIZE_def NUM_SLOTS_def)
qed

declare scan_pages.simps [simp del]

definition find_record_page_slot :: "store \<Rightarrow> pystr \<Rightarrow> pystr \<Rightarrow> py_exc + (int \<times> nat) option" where
  \<comment> \<open>\<open>Inr None\<close> is the pair \<open>(None, None)\<close>\<close>
  "find_record_page_slot s tname pk_value =
     (case read_catalog (catalog_meta s) of
        Inl exc \<Rightarrow> Inl exc
      | Inr catalog \<Rightarrow>
          (case catalog tname of
             None \<Rightarrow> Inr None
           | Some e \<Rightarrow>
               if \<not> isfile s (dat_filename tname) then Inr None
               else (case open_file s (dat_filename tname) RB of
                       Inl exc \<Rightarrow> Inl exc
                     | Inr f \<Rightarrow> scan_pages f (e_fields e) (e_pk_index e - 1) pk_value 0)))"

subsection \<open>\<open>find_free_slot_in_page\<close>\<close>

fun first_zero :: "pybytes \<Rightarrow> nat list \<Rightarrow> nat option" where
  "first_zero slot_bitmap [] = None"
| "first_zero slot_bitmap (idx # rest) =
     (if slot_bitmap ! idx = 0 then Some idx else first_zero slot_bitmap rest)"

definition find_free_slot_in_page :: "pybytes \<Rightarrow> int \<Rightarrow> field list \<Rightarrow> py_exc + nat option" where
  "find_free_slot_in_page f page_offset fields =
     (case read_at f page_offset (int PAGE_HEADER_SIZE) of
        Inl e \<Rightarrow> Inl e
      | Inr header \<Rightarrow>
          if length header < PAGE_HEADER_SIZE then Inr None
          else if header ! 0 \<ge> NUM_SLOTS then Inr None
          else Inr (first_zero (py_slice header 1 (1 + int NUM_SLOTS)) [0..<NUM_SLOTS]))"

subsection \<open>\<open>handle_create_record\<close>\<close>

text \<open>Step 7 of the handler works on the open data file. Each part returns what the handler
  returns or raises there, with the bytes of the file at that moment.\<close>

definition write_into_slot :: "pybytes \<Rightarrow> field list \<Rightarrow> pybytes \<Rightarrow> int \<Rightarrow> nat \<Rightarrow> result \<times> pybytes" where
  \<comment> \<open>a free slot was found: write the record, then read, update and write the header\<close>
  "write_into_slot f fields record_bytes page_offset free_slot =
     (case write_at f (page_offset + int PAGE_HEADER_SIZE
                         + int free_slot * compute_record_size fields) record_bytes of
        Inl e \<Rightarrow> (Raised e, f)
      | Inr f1 \<Rightarrow>
          (case read_at f1 page_offset (int PAGE_HEADER_SIZE) of
             Inl e \<Rightarrow> (Raised e, f1)
           | Inr header \<Rightarrow>
               if header = [] then (Raised IndexError, f1)
               else if header ! 0 + 1 > 255 then (Raised ValueError, f1)
               else if length header \<le> 1 + free_slot then (Raised IndexError, f1)
               else (case write_at f1 page_offset
                            (header [0 := header ! 0 + 1, 1 + free_slot := 1]) of
                       Inl e \<Rightarrow> (Raised e, f1)
                     | Inr f2 \<Rightarrow> (Returned Success, f2))))"

definition append_page :: "pybytes \<Rightarrow> field list \<Rightarrow> pybytes \<Rightarrow> int \<Rightarrow> result \<times> pybytes" where
  \<comment> \<open>no page had room: the page cap, then a new page with the record in slot 0\<close>
  "append_page f fields record_bytes file_size =
     (if file_size < 0 then (Raised OSError, f)
      else if file_size div page_size_of fields \<ge> MAX_PAGES then (Returned CapacityExceeded, f)
      else (case write_at f file_size (1 # 1 # replicate (NUM_SLOTS - 1) 0) of
              Inl e \<Rightarrow> (Raised e, f)
            | Inr f1 \<Rightarrow>
                if int NUM_SLOTS * compute_record_size fields < 0 then (Raised ValueError, f1)
                else (case write_at f1 (file_size + int PAGE_HEADER_SIZE)
                             (record_bytes
                              @ py_slice (py_repeat 0 (int NUM_SLOTS * compute_record_size fields))
                                  (compute_record_size fields)
                                  (int NUM_SLOTS * compute_record_size fields)) of
                        Inl e \<Rightarrow> (Raised e, f1)
                      | Inr f2 \<Rightarrow> (Returned Success, f2))))"

function insert_scan ::
  "pybytes \<Rightarrow> field list \<Rightarrow> pybytes \<Rightarrow> int \<Rightarrow> int \<Rightarrow> result \<times> pybytes" where
  "insert_scan f fields record_bytes file_size page_offset =
     (if page_offset < file_size then
        (case find_free_slot_in_page f page_offset fields of
           Inl e \<Rightarrow> (Raised e, f)
         | Inr (Some free_slot) \<Rightarrow> write_into_slot f fields record_bytes page_offset free_slot
         | Inr None \<Rightarrow>
             insert_scan f fields record_bytes file_size (page_offset + page_size_of fields))
      else append_page f fields record_bytes file_size)"
  by pat_completeness auto

lemma find_free_slot_in_page_pos:
  "find_free_slot_in_page f off fields = Inr r \<Longrightarrow> 0 \<le> off"
  by (auto simp: find_free_slot_in_page_def read_at_def split: if_splits)

termination insert_scan
proof (relation "measure (\<lambda>(f, fields, record_bytes, file_size, off).
    if 0 < page_size_of fields then nat (file_size - off) else nat (off + 1))",
    goal_cases)
  case 1
  then show ?case by simp
next
  case (2 f fields record_bytes file_size off x)
  then show ?case
    using find_free_slot_in_page_pos [of f off fields x] page_size_nonzero [of fields]
    by auto
qed

declare insert_scan.simps [simp del]

definition insert_record :: "pybytes \<Rightarrow> field list \<Rightarrow> pybytes \<Rightarrow> result \<times> pybytes" where
  \<comment> \<open>the body of \<open>with open(dat_filename, fmode) as f\<close>: an empty file gets a zeroed page\<close>
  "insert_record f fields record_bytes =
     (if length f = 0
      then insert_scan
             (replicate PAGE_HEADER_SIZE 0
              @ py_repeat 0 (int NUM_SLOTS * compute_record_size fields))
             fields record_bytes (page_size_of fields) 0
      else insert_scan f fields record_bytes (int (length f)) 0)"

definition with_dat :: "store \<Rightarrow> pystr \<Rightarrow> result \<times> pybytes \<Rightarrow> result \<times> store" where
  \<comment> \<open>the data file of a type takes the bytes written\<close>
  "with_dat s tname rf =
     (fst rf, Store (catalog_meta s) ((dat_files s)(dat_filename tname \<mapsto> snd rf)) (refused s))"

definition handle_create_record :: "store \<Rightarrow> pystr list \<Rightarrow> result \<times> store" where
  "handle_create_record s tokens = logged tokens
     (if length tokens < 4 then (Returned (Rejected TokenCount), s)
      else
        (case read_catalog (catalog_meta s) of
           Inl exc \<Rightarrow> (Raised exc, s)
         | Inr catalog \<Rightarrow>
        (case catalog (tokens ! 2) of
           None \<Rightarrow> (Returned SchemaNotFound, s)
         | Some e \<Rightarrow>
             if int (length (drop 3 tokens)) \<noteq> e_num_fields e
             then (Returned (Rejected ValueCount), s)
             else
               (case py_index (drop 3 tokens) (e_pk_index e - 1) of
                  Inl exc \<Rightarrow> (Raised exc, s)
                | Inr pk_value \<Rightarrow>
                    (case find_record_page_slot s (tokens ! 2) pk_value of
                       Inl exc \<Rightarrow> (Raised exc, s)
                     | Inr (Some loc) \<Rightarrow> (Returned DuplicateKey, s)
                     | Inr None \<Rightarrow>
                         (case pack_record (e_fields e) (drop 3 tokens) of
                            Inl ValueError \<Rightarrow> (Returned EncodeError, s)
                          | Inl exc \<Rightarrow> (Raised exc, s)
                          | Inr record_bytes \<Rightarrow>
                              (case open_file s (dat_filename (tokens ! 2))
                                      (if isfile s (dat_filename (tokens ! 2))
                                       then RPlusB else WPlusB) of
                                 Inl exc \<Rightarrow> (Raised exc, s)
                               | Inr f \<Rightarrow>
                                   with_dat s (tokens ! 2)
                                     (insert_record f (e_fields e) record_bytes))))))))"

subsection \<open>\<open>handle_delete_record\<close>\<close>

definition invalidate :: "pybytes \<Rightarrow> field list \<Rightarrow> int \<Rightarrow> nat \<Rightarrow> result \<times> pybytes" where
  \<comment> \<open>step 5, inside \<open>try\<close>: every exception there makes the handler return False\<close>
  "invalidate f fields page_off slot_idx =
     (case write_at f (page_off + int PAGE_HEADER_SIZE
                         + int slot_idx * compute_record_size fields) [0] of
        Inl e \<Rightarrow> (Returned IOFailure, f)
      | Inr f1 \<Rightarrow>
          (case read_at f1 page_off (int PAGE_HEADER_SIZE) of
             Inl e \<Rightarrow> (Returned IOFailure, f1)
           | Inr header \<Rightarrow>
               if length header \<le> 1 + slot_idx then (Returned IOFailure, f1)
               else (case write_at f1 page_off
                            (header [0 := (if header ! 0 > 0 then header ! 0 - 1 else header ! 0),
                                     1 + slot_idx := 0]) of
                       Inl e \<Rightarrow> (Returned IOFailure, f1)
                     | Inr f2 \<Rightarrow> (Returned Success, f2))))"

definition handle_delete_record :: "store \<Rightarrow> pystr list \<Rightarrow> result \<times> store" where
  "handle_delete_record s tokens = logged tokens
     (if length tokens \<noteq> 4 then (Returned (Rejected TokenCount), s)
      else
        (case read_catalog (catalog_meta s) of
           Inl exc \<Rightarrow> (Raised exc, s)
         | Inr catalog \<Rightarrow>
        (case catalog (tokens ! 2) of
           None \<Rightarrow> (Returned SchemaNotFound, s)
         | Some e \<Rightarrow>
             (case find_record_page_slot s (tokens ! 2) (tokens ! 3) of
                Inl exc \<Rightarrow> (Raised exc, s)
              | Inr None \<Rightarrow> (Returned RecordNotFound, s)
              | Inr (Some (page_off, slot_idx)) \<Rightarrow>
                  (case open_file s (dat_filename (tokens ! 2)) RPlusB of
                     Inl exc \<Rightarrow> (Returned IOFailure, s)
                   | Inr f \<Rightarrow>
                       with_dat s (tokens ! 2) (invalidate f (e_fields e) page_off slot_idx))))))"

subsection \<open>\<open>handle_search_record\<close>\<close>

definition handle_search_record :: "store \<Rightarrow> pystr list \<Rightarrow> result \<times> store" where
  "handle_search_record s tokens = logged tokens
     (if length tokens \<noteq> 4 then (Returned (Rejected TokenCount), s)
      else
        (case read_catalog (catalog_meta s) of
           Inl exc \<Rightarrow> (Raised exc, s)
         | Inr catalog \<Rightarrow>
        (case catalog (tokens ! 2) of
           None \<Rightarrow> (Returned SchemaNotFound, s)
         | Some e \<Rightarrow>
             (case find_record_page_slot s (tokens ! 2) (tokens ! 3) of
                Inl exc \<Rightarrow> (Raised exc, s)
              | Inr None \<Rightarrow> (Returned RecordNotFound, s)
              | Inr (Some (page_off, slot_idx)) \<Rightarrow>
                  (case open_file s (dat_filename (tokens ! 2)) RB of
                     Inl exc \<Rightarrow> (Returned IOFailure, s)
                   | Inr f \<Rightarrow>
                       (case read_at f (page_off + int PAGE_HEADER_SIZE
                                          + int slot_idx * compute_record_size (e_fields e))
                               (compute_record_size (e_fields e)) of
                          Inl exc \<Rightarrow> (Returned IOFailure, s)
                        | Inr record_bytes \<Rightarrow>
                            (case unpack_record (e_fields e) record_bytes of
                               Inl exc \<Rightarrow> (Returned IOFailure, s)
                             | Inr vals \<Rightarrow> (Returned (Found vals), s))))))))"

subsection \<open>\<open>handle_create_type\<close>\<close>

definition write_catalog_entry :: "store \<Rightarrow> pystr \<Rightarrow> int \<Rightarrow> int \<Rightarrow> field list \<Rightarrow> py_exc + store" where
  \<comment> \<open>the line is appended to catalog.meta in UTF-8; nothing is written when the line
      cannot be built or encoded\<close>
  "write_catalog_entry s tname num_fields pk_index fields_list =
     (case catalog_line tname num_fields pk_index fields_list of
        Inl exc \<Rightarrow> Inl exc
      | Inr entry_line \<Rightarrow>
          (case utf8_encode entry_line of
             Inl exc \<Rightarrow> Inl exc
           | Inr bs \<Rightarrow> Inr (Store (catalog_meta s @ bs) (dat_files s) (refused s))))"

fun make_fields :: "pystr list \<Rightarrow> nat list \<Rightarrow> reason + field list" where
  \<comment> \<open>step 7, the loop over \<open>range(nf)\<close>; \<open>Inl\<close> where the handler returns False\<close>
  "make_fields field_tokens [] = Inr []"
| "make_fields field_tokens (i # rest) =
     (if length (field_tokens ! (2 * i)) > 20 then Inl FieldNameLength
      else if field_tokens ! (2 * i + 1) \<noteq> ascii ''int''
              \<and> field_tokens ! (2 * i + 1) \<noteq> ascii ''str'' then Inl FieldKind
      else (case make_fields field_tokens rest of
              Inl r \<Rightarrow> Inl r
            | Inr fds \<Rightarrow>
                Inr ((field_tokens ! (2 * i), field_tokens ! (2 * i + 1),
                      if field_tokens ! (2 * i + 1) = ascii ''int'' then 4 else 20) # fds)))"

text \<open>
  Step 9 opens the data file after the catalog line has been written: an OSError there is
  caught and the handler returns False, a ValueError (a NUL in the type name) is not caught.
  In both cases the catalog keeps the new line.
\<close>

definition handle_create_type :: "store \<Rightarrow> pystr list \<Rightarrow> result \<times> store" where
  "handle_create_type s tokens = logged tokens
     (if length tokens < 6 then (Returned (Rejected TokenCount), s)
      else
        (case py_int (tokens ! 3) of
           None \<Rightarrow> (Returned (Rejected NotInteger), s)
         | Some nf \<Rightarrow>
             (case py_int (tokens ! 4) of
                None \<Rightarrow> (Returned (Rejected NotInteger), s)
              | Some pk_index \<Rightarrow>
                  if nf < 1 \<or> nf > 6 then (Returned (Rejected FieldCount), s)
                  else if pk_index < 1 \<or> pk_index > nf then (Returned (Rejected KeyIndex), s)
                  else if length (tokens ! 2) > 12 then (Returned (Rejected TypeNameLength), s)
                  else if int (length (drop 5 tokens)) \<noteq> nf * 2
                    then (Returned (Rejected FieldTokenCount), s)
                  else
                    (case read_catalog (catalog_meta s) of
                       Inl exc \<Rightarrow> (Raised exc, s)
                     | Inr catalog \<Rightarrow>
                         if catalog (tokens ! 2) \<noteq> None then (Returned DuplicateType, s)
                         else
                           (case make_fields (drop 5 tokens) [0..<nat nf] of
                              Inl r \<Rightarrow> (Returned (Rejected r), s)
                            | Inr fields_list \<Rightarrow>
                                (case write_catalog_entry s (tokens ! 2) nf pk_index
                                        fields_list of
                                   Inl exc \<Rightarrow> (Raised exc, s)
                                 | Inr s1 \<Rightarrow>
                                     (case open_file s1 (dat_filename (tokens ! 2)) WB of
                                        Inl OSError \<Rightarrow> (Returned IOFailure, s1)
                                      | Inl exc \<Rightarrow> (Raised exc, s1)
                                      | Inr f \<Rightarrow>
                                          (Returned Success,
                                           Store (catalog_meta s1)
                                             ((dat_files s1)(dat_filename (tokens ! 2) \<mapsto> []))
                                             (refused s1)))))))))"

section \<open>Well-formed schemas and values\<close>

text \<open>A schema as \<open>handle_create_type\<close> writes it has length 4 for every \<open>int\<close> field; the
  codec needs no more than that and a length that is not negative for the other fields.\<close>

definition field_ok :: "field \<Rightarrow> bool" where
  "field_ok f = (case f of (fname, ftype, flen) \<Rightarrow>
     if ftype = ascii ''int'' then flen = 4 else 0 \<le> flen)"

definition encodable :: "field \<Rightarrow> pystr \<Rightarrow> bool" where
  "encodable f v = (case f of (fname, ftype, flen) \<Rightarrow>
     if ftype = ascii ''int''
     then (case py_int v of None \<Rightarrow> False | Some i \<Rightarrow> - 2147483648 \<le> i \<and> i < 2147483648)
     else (case utf8_encode v of Inl e \<Rightarrow> False | Inr s \<Rightarrow> True))"


text \<open>The text of one field of a record: what \<open>unpack_record\<close> returns for the field when
  \<open>str\<close> does not fail.\<close>

definition chunk_text :: "pystr \<Rightarrow> pybytes \<Rightarrow> pystr" where
  "chunk_text ftype chunk =
     (if ftype = ascii ''int'' then int_text (bytes_to_int chunk)
      else utf8_decode_ignore (rstrip_zero chunk))"

fun unpack_texts :: "field list \<Rightarrow> pybytes \<Rightarrow> int \<Rightarrow> pystr list" where
  "unpack_texts [] record_bytes offset = []"
| "unpack_texts ((fname, ftype, flen) # fs) record_bytes offset =
     chunk_text ftype (py_slice record_bytes offset (offset + flen))
       # unpack_texts fs record_bytes (offset + flen)"

text \<open>A command that can be written to the log: no token holds a surrogate.\<close>

definition loggable :: "pystr list \<Rightarrow> bool" where
  "loggable tokens = (case utf8_encode (py_join [32] tokens) of Inl e \<Rightarrow> False | Inr l \<Rightarrow> True)"

section \<open>Well-formed lines of the metadata store\<close>






section \<open>What CreateType accepts\<close>

definition created_fields :: "pystr list \<Rightarrow> int \<Rightarrow> field list" where
  \<comment> \<open>the fields of an accepted CreateType: token pairs, with length 4 for int and 20 for str\<close>
  "created_fields field_tokens nf =
     map (\<lambda>i. (field_tokens ! (2 * i), field_tokens ! (2 * i + 1),
               if field_tokens ! (2 * i + 1) = ascii ''int'' then 4 else 20)) [0..<nat nf]"

text \<open>
  The checks of a CreateType request in the order of the specification, each with what it
  reports: the field count, the key index, the length of the type name, the number of field
  tokens, and then for every field its name and its kind. Lengths are those of \<open>len\<close>, in
  characters.
\<close>

definition count_checks :: "pystr \<Rightarrow> int \<Rightarrow> int \<Rightarrow> pystr list \<Rightarrow> (reason \<times> bool) list" where
  "count_checks tname nf pk field_tokens =
     [(FieldCount, 1 \<le> nf \<and> nf \<le> 6),
      (KeyIndex, 1 \<le> pk \<and> pk \<le> nf),
      (TypeNameLength, length tname \<le> 12),
      (FieldTokenCount, int (length field_tokens) = 2 * nf)]"

definition field_checks :: "pystr list \<Rightarrow> nat list \<Rightarrow> (reason \<times> bool) list" where
  "field_checks field_tokens idxs =
     concat (map (\<lambda>i. [(FieldNameLength, length (field_tokens ! (2 * i)) \<le> 20),
                        (FieldKind, field_tokens ! (2 * i + 1) = ascii ''int''
                                    \<or> field_tokens ! (2 * i + 1) = ascii ''str'')]) idxs)"

definition shape_checks :: "pystr \<Rightarrow> int \<Rightarrow> int \<Rightarrow> pystr list \<Rightarrow> (reason \<times> bool) list" where
  "shape_checks tname nf pk field_tokens =
     count_checks tname nf pk field_tokens @ field_checks field_tokens [0..<nat nf]"

definition first_failed :: "(reason \<times> bool) list \<Rightarrow> reason option" where
  "first_failed checks = map_option fst (find (\<lambda>c. \<not> snd c) checks)"


section \<open>The record codec\<close>

lemma unsigned_be4: "unsigned_be [a, b, c, d] = 16777216 * a + 65536 * b + 256 * c + d"
  by (simp add: unsigned_be_def)







lemma dec1: "c < 128 \<Longrightarrow> utf8_decode_ignore (c # rest) = c # utf8_decode_ignore rest"
  by simp









lemma enc2:
  assumes "194 \<le> b" "b < 224" "is_cont b2"
  shows "encode_cp ((b - 192) * 64 + (b2 - 128)) = Inr [b, b2]"
proof -
  define a d where "a = b - 192" and "d = b2 - 128"
  have r: "2 \<le> a" "a < 32" "d < 64" and b: "b = 192 + a" "b2 = 128 + d"
    using assms by (auto simp: a_def d_def is_cont_def)
  have "(a * 64 + d) div 64 = a" "(a * 64 + d) mod 64 = d" using r by simp_all
  then show ?thesis using r unfolding b by (simp add: encode_cp_def)
qed

lemma enc3:
  assumes "224 \<le> b" "b < 240" "is_cont b2" "is_cont b3"
    "\<not> (b = 224 \<and> b2 < 160)" "\<not> (b = 237 \<and> 160 \<le> b2)"
  shows "encode_cp ((b - 224) * 4096 + (b2 - 128) * 64 + (b3 - 128)) = Inr [b, b2, b3]"
proof -
  define a e d where "a = b - 224" and "e = b2 - 128" and "d = b3 - 128"
  have r: "a < 16" "e < 64" "d < 64" "a = 0 \<longrightarrow> 32 \<le> e" "a = 13 \<longrightarrow> e < 32"
    and b: "b = 224 + a" "b2 = 128 + e" "b3 = 128 + d"
    using assms by (auto simp: a_def d_def e_def is_cont_def)
  define m where "m = a * 64 + e"
  define c where "c = m * 64 + d"
  have c': "c = a * 4096 + e * 64 + d" by (simp add: c_def m_def)
  have "c div 64 = m" "c mod 64 = d" using r by (simp_all add: c_def)
  moreover have "m mod 64 = e" "m div 64 = a" using r by (simp_all add: m_def)
  moreover have "c div 4096 = c div 64 div 64" by (simp add: div_mult2_eq [symmetric])
  moreover have "2048 \<le> c" using r unfolding c' by (cases "a = 0") auto
  moreover have "c < 65536" using r(1-3) unfolding c' by linarith
  moreover have "c < 55296 \<or> 57344 \<le> c"
  proof -
    consider "a \<le> 12" | "a = 13" | "14 \<le> a" by linarith
    then show ?thesis
    proof cases
      case 1 then show ?thesis using r(1-3) unfolding c' by linarith
    next
      case 2 then show ?thesis using r unfolding c' by simp
    next
      case 3 then show ?thesis using r(1-3) unfolding c' by linarith
    qed
  qed
  ultimately have "encode_cp c = Inr [224 + a, 128 + e, 128 + d]"
    by (auto simp add: encode_cp_def)
  then show ?thesis unfolding b c' by simp
qed

lemma enc4:
  assumes "240 \<le> b" "b < 245" "is_cont b2" "is_cont b3" "is_cont b4"
    "\<not> (b = 240 \<and> b2 < 144)" "\<not> (b = 244 \<and> 144 \<le> b2)"
  shows "encode_cp ((b - 240) * 262144 + (b2 - 128) * 4096 + (b3 - 128) * 64 + (b4 - 128))
         = Inr [b, b2, b3, b4]"
proof -
  define a e d f where "a = b - 240" and "e = b2 - 128" and "d = b3 - 128" and "f = b4 - 128"
  have r: "a < 5" "e < 64" "d < 64" "f < 64" "a = 0 \<longrightarrow> 16 \<le> e" "a = 4 \<longrightarrow> e < 16"
    and b: "b = 240 + a" "b2 = 128 + e" "b3 = 128 + d" "b4 = 128 + f"
    using assms by (auto simp: a_def d_def e_def f_def is_cont_def)
  define m where "m = a * 64 + e"
  define n where "n = m * 64 + d"
  define c where "c = n * 64 + f"
  have c': "c = a * 262144 + e * 4096 + d * 64 + f" by (simp add: c_def m_def n_def)
  have "c div 64 = n" "c mod 64 = f" using r by (simp_all add: c_def)
  moreover have "n mod 64 = d" "n div 64 = m" using r by (simp_all add: n_def)
  moreover have "m mod 64 = e" "m div 64 = a" using r by (simp_all add: m_def)
  moreover have "c div 4096 = c div 64 div 64" by (simp add: div_mult2_eq [symmetric])
  moreover have "c div 262144 = c div 64 div 64 div 64" by (simp add: div_mult2_eq [symmetric])
  moreover have "65536 \<le> c" using r unfolding c' by (cases "a = 0") auto
  moreover have "c < 1114112" using r unfolding c' by (cases "a = 4") auto
  ultimately have "encode_cp c = Inr [240 + a, 128 + e, 128 + d, 128 + f]"
    by (auto simp add: encode_cp_def)
  then show ?thesis unfolding b c' by simp
qed

lemma decode_step:
  assumes "x \<noteq> []"
  shows "\<exists>k cps. 0 < k \<and> k \<le> length x
           \<and> utf8_decode_ignore x = cps @ utf8_decode_ignore (drop k x)
           \<and> (cps = [] \<or> (\<exists>c. cps = [c] \<and> encode_cp c = Inr (take k x)))"
proof -
  obtain b bs where x: "x = b # bs" using assms by (cases x) auto
  let ?P = "\<lambda>k cps. 0 < k \<and> k \<le> length x
           \<and> utf8_decode_ignore x = cps @ utf8_decode_ignore (drop k x)
           \<and> (cps = [] \<or> (\<exists>c. cps = [c] \<and> encode_cp c = Inr (take k x)))"
  have skip: "\<exists>k cps. ?P k cps" if "utf8_decode_ignore x = utf8_decode_ignore (drop k x)"
     "0 < k" "k \<le> length x" for k
    using that by (intro exI [of _ k] exI [of _ "[]"]) simp
  have rest: "\<exists>k cps. ?P k cps" if "utf8_decode_ignore x = []"
    using skip [of "length x"] that assms by simp
  have one: "\<exists>k cps. ?P k cps"
    if "utf8_decode_ignore x = c # utf8_decode_ignore (drop k x)" "encode_cp c = Inr (take k x)"
     "0 < k" "k \<le> length x" for k c
    using that by (intro exI [of _ k] exI [of _ "[c]"]) simp
  consider (a) "b < 128" | (b) "128 \<le> b" "b < 194" | (c) "194 \<le> b" "b < 224"
    | (d) "224 \<le> b" "b < 240" | (e) "240 \<le> b" "b < 245" | (f) "245 \<le> b"
    by linarith
  then show ?thesis
  proof cases
    case a
    show ?thesis by (rule one [of b 1]) (use a in \<open>simp_all add: x encode_cp_def\<close>)
  next
    case b
    show ?thesis by (rule skip [of 1]) (use b in \<open>auto simp add: x is_cont_def\<close>)
  next
    case f
    show ?thesis by (rule skip [of 1]) (use f in \<open>auto simp add: x is_cont_def\<close>)
  next
    case c
    show ?thesis
    proof (cases bs)
      case Nil
      show ?thesis by (rule rest) (use c Nil in \<open>auto simp add: x is_cont_def\<close>)
    next
      case (Cons b2 r2)
      show ?thesis
      proof (cases "is_cont b2")
        case True
        show ?thesis
          by (rule one [of "(b - 192) * 64 + (b2 - 128)" 2])
            (use c Cons True enc2 [of b b2] in \<open>auto simp add: x is_cont_def\<close>)
      next
        case False
        show ?thesis by (rule skip [of 1]) (use c Cons False in \<open>auto simp add: x is_cont_def\<close>)
      qed
    qed
  next
    case d
    show ?thesis
    proof (cases bs)
      case Nil
      show ?thesis by (rule rest) (use d Nil in \<open>auto simp add: x is_cont_def\<close>)
    next
      case (Cons b2 r2)
      show ?thesis
      proof (cases "\<not> is_cont b2 \<or> (b = 224 \<and> b2 < 160) \<or> (b = 237 \<and> 160 \<le> b2)")
        case True
        show ?thesis by (rule skip [of 1]) (use d Cons True in \<open>auto simp add: x\<close>)
      next
        case F1: False
        show ?thesis
        proof (cases r2)
          case Nil
          show ?thesis by (rule rest) (use d Cons Nil F1 in \<open>auto simp add: x is_cont_def\<close>)
        next
          case C3: (Cons b3 r3)
          show ?thesis
          proof (cases "is_cont b3")
            case True
            show ?thesis
              by (rule one [of "(b - 224) * 4096 + (b2 - 128) * 64 + (b3 - 128)" 3])
                (use d Cons C3 F1 True enc3 [of b b2 b3] in \<open>auto simp add: x is_cont_def\<close>)
          next
            case False
            show ?thesis by (rule skip [of 2]) (use d Cons C3 F1 False in \<open>auto simp add: x is_cont_def\<close>)
          qed
        qed
      qed
    qed
  next
    case e
    show ?thesis
    proof (cases bs)
      case Nil
      show ?thesis by (rule rest) (use e Nil in \<open>auto simp add: x is_cont_def\<close>)
    next
      case (Cons b2 r2)
      show ?thesis
      proof (cases "\<not> is_cont b2 \<or> (b = 240 \<and> b2 < 144) \<or> (b = 244 \<and> 144 \<le> b2)")
        case True
        show ?thesis by (rule skip [of 1]) (use e Cons True in \<open>auto simp add: x\<close>)
      next
        case F1: False
        show ?thesis
        proof (cases r2)
          case Nil
          show ?thesis by (rule rest) (use e Cons Nil F1 in \<open>auto simp add: x is_cont_def\<close>)
        next
          case C3: (Cons b3 r3)
          show ?thesis
          proof (cases "is_cont b3")
            case False
            show ?thesis by (rule skip [of 2]) (use e Cons C3 F1 False in \<open>auto simp add: x is_cont_def\<close>)
          next
            case T3: True
            show ?thesis
            proof (cases r3)
              case Nil
              show ?thesis by (rule rest) (use e Cons C3 Nil F1 T3 in \<open>auto simp add: x is_cont_def\<close>)
            next
              case C4: (Cons b4 r4)
              show ?thesis
              proof (cases "is_cont b4")
                case True
                show ?thesis
                  by (rule one [of "(b - 240) * 262144 + (b2 - 128) * 4096 + (b3 - 128) * 64
                         + (b4 - 128)" 4])
                    (use e Cons C3 C4 F1 T3 True enc4 [of b b2 b3 b4] in \<open>auto simp add: x is_cont_def\<close>)
              next
                case False
                show ?thesis
                  by (rule skip [of 3]) (use e Cons C3 C4 F1 T3 False in \<open>auto simp add: x is_cont_def\<close>)
              qed
            qed
          qed
        qed
      qed
    qed
  qed
qed

lemma encode_decode_subseq:
  "\<exists>e. utf8_encode (utf8_decode_ignore x) = Inr e \<and> subseq e x"
proof (induction "length x" arbitrary: x rule: less_induct)
  case less
  show ?case
  proof (cases "x = []")
    case True
    then show ?thesis by simp
  next
    case False
    from decode_step [OF False] obtain k cps where k: "0 < k" "k \<le> length x"
      and d: "utf8_decode_ignore x = cps @ utf8_decode_ignore (drop k x)"
      and c: "cps = [] \<or> (\<exists>c. cps = [c] \<and> encode_cp c = Inr (take k x))"
      by blast
    have "length (drop k x) < length x" using k by simp
    from less [OF this] obtain e where
      e: "utf8_encode (utf8_decode_ignore (drop k x)) = Inr e" "subseq e (drop k x)"
      by blast
    have x: "x = take k x @ drop k x" by simp
    from c show ?thesis
    proof
      assume "cps = []"
      then have "utf8_encode (utf8_decode_ignore x) = Inr e" using d e by simp
      moreover have "subseq e x"
        using e(2) x by (metis list_emb_append2)
      ultimately show ?thesis by blast
    next
      assume "\<exists>c. cps = [c] \<and> encode_cp c = Inr (take k x)"
      then obtain c where "cps = [c]" "encode_cp c = Inr (take k x)" by blast
      then have "utf8_encode (utf8_decode_ignore x) = Inr (take k x @ e)" using d e by simp
      moreover have "subseq (take k x @ e) x"
        using e(2) x by (metis list_emb_append_mono subseq_order.order_refl)
      ultimately show ?thesis by blast
    qed
  qed
qed

lemma rstrip_zero_Nil [simp]: "rstrip_zero [] = []"
  by (simp add: rstrip_zero_def)

lemma rstrip_zero_append:
  "rstrip_zero (a @ b) = (if rstrip_zero b = [] then rstrip_zero a else a @ rstrip_zero b)"
  by (auto simp: rstrip_zero_def dropWhile_append dropWhile_eq_Nil_conv)

lemma rstrip_zero_replicate [simp]: "rstrip_zero (replicate k 0) = []"
  by (simp add: rstrip_zero_def dropWhile_eq_Nil_conv)

lemma rstrip_zero_pad [simp]: "rstrip_zero (s @ replicate k 0) = rstrip_zero s"
  by (simp add: rstrip_zero_append)


lemma rstrip_zero_eq_Nil: "rstrip_zero s = [] \<longleftrightarrow> (\<forall>b\<in>set s. b = 0)"
  by (auto simp: rstrip_zero_def dropWhile_eq_Nil_conv)













subsection \<open>\<open>str\<close> on the integers of a record\<close>

lemma nat_digits_length: "n < 10 ^ k \<Longrightarrow> 0 < k \<Longrightarrow> length (nat_digits n) \<le> k"
proof (induction k arbitrary: n)
  case 0
  then show ?case by simp
next
  case (Suc k)
  show ?case
  proof (cases "n < 10")
    case True
    then show ?thesis by (simp add: nat_digits.simps [of n])
  next
    case False
    then have k: "0 < k" using Suc.prems by (cases k) auto
    have "n div 10 < 10 ^ k"
      using Suc.prems(1) by (simp add: less_mult_imp_div_less mult.commute)
    from Suc.IH [OF this k] show ?thesis
      using False by (simp add: nat_digits.simps [of n])
  qed
qed

lemma py_str_small:
  assumes "\<bar>i\<bar> \<le> 2147483648"
  shows "py_str i = Inr (int_text i)"
proof -
  have "nat \<bar>i\<bar> < 10 ^ 10" using assms by simp
  then have "length (nat_digits (nat \<bar>i\<bar>)) \<le> 10"
    by (rule nat_digits_length) simp
  then show ?thesis by (simp add: py_str_def MAX_STR_DIGITS_def)
qed

lemma unsigned_be_snoc: "unsigned_be (bs @ [b]) = 256 * unsigned_be bs + b"
  by (simp add: unsigned_be_def)

lemma bytes_to_int_small:
  assumes "list_all (\<lambda>b. b < 256) bs" "length bs \<le> 4"
  shows "\<bar>bytes_to_int bs\<bar> \<le> 2147483648"
proof -
  consider "bs = []" | a where "bs = [a]" | a b where "bs = [a, b]"
    | a b c where "bs = [a, b, c]" | a b c d where "bs = [a, b, c, d]"
    using assms(2)
    by (cases bs; simp; rename_tac r1; case_tac r1; simp; rename_tac r2; case_tac r2; simp;
        rename_tac r3; case_tac r3; simp)
  then show ?thesis
  proof cases
    case 1
    then show ?thesis by (simp add: bytes_to_int_def unsigned_be_def)
  next
    case 2
    then have "a < 256" using assms(1) by simp
    then show ?thesis unfolding 2 bytes_to_int_def Let_def unsigned_be_def by simp
  next
    case 3
    then have "a < 256" "b < 256" using assms(1) by simp_all
    then show ?thesis unfolding 3 bytes_to_int_def Let_def unsigned_be_def by simp
  next
    case 4
    then have "a < 256" "b < 256" "c < 256" using assms(1) by simp_all
    then show ?thesis unfolding 4 bytes_to_int_def Let_def unsigned_be_def by simp
  next
    case 5
    then have "a < 256" "b < 256" "c < 256" "d < 256" using assms(1) by simp_all
    then show ?thesis unfolding 5 bytes_to_int_def Let_def unsigned_be_def by simp
  qed
qed

lemma py_slice_length: "0 \<le> l \<Longrightarrow> length (py_slice xs i (i + l)) \<le> nat l"
  by (auto simp: py_slice_def Let_def max_def min_def)

lemma py_slice_subset: "set (py_slice xs i j) \<subseteq> set xs"
  unfolding py_slice_def Let_def
  by (meson set_take_subset set_drop_subset subset_trans)

lemma py_slice_bytes:
  "list_all (\<lambda>b. b < (256::nat)) xs \<Longrightarrow> list_all (\<lambda>b. b < 256) (py_slice xs i j)"
  using py_slice_subset [of xs i j] by (auto simp: list_all_iff)

lemma unpack_value_text:
  assumes "ftype = ascii ''int'' \<Longrightarrow> list_all (\<lambda>b. b < 256) chunk \<and> length chunk \<le> 4"
  shows "unpack_value ftype chunk = Inr (chunk_text ftype chunk)"
proof (cases "ftype = ascii ''int''")
  case True
  then have "\<bar>bytes_to_int chunk\<bar> \<le> 2147483648"
    using assms bytes_to_int_small by blast
  then show ?thesis using True by (simp add: unpack_value_def chunk_text_def py_str_small)
next
  case False
  then show ?thesis by (simp add: unpack_value_def chunk_text_def)
qed

lemma unpack_fields_texts:
  assumes "list_all field_ok fields" "list_all (\<lambda>b. b < 256) record_bytes"
  shows "unpack_fields fields record_bytes off = Inr (unpack_texts fields record_bytes off)"
  using assms(1)
proof (induction fields arbitrary: off)
  case Nil
  then show ?case by simp
next
  case (Cons f fs)
  obtain fname ftype flen where f: "f = (fname, ftype, flen)" by (cases f) auto
  have ok: "field_ok (fname, ftype, flen)" "list_all field_ok fs"
    using Cons.prems by (simp_all add: f)
  have "unpack_value ftype (py_slice record_bytes off (off + flen))
      = Inr (chunk_text ftype (py_slice record_bytes off (off + flen)))"
  proof (rule unpack_value_text)
    assume "ftype = ascii ''int''"
    then have "flen = 4" using ok(1) by (simp add: field_ok_def)
    then show "list_all (\<lambda>b. b < 256) (py_slice record_bytes off (off + flen))
        \<and> length (py_slice record_bytes off (off + flen)) \<le> 4"
      using py_slice_bytes [OF assms(2)] py_slice_length [of 4 record_bytes off] by simp
  qed
  then show ?case using Cons.IH [OF ok(2)] by (simp add: f)
qed

lemma unpack_record_texts:
  assumes "list_all field_ok fields" "list_all (\<lambda>b. b < 256) record_bytes"
  shows "unpack_record fields record_bytes = Inr (unpack_texts fields record_bytes 1)"
  unfolding unpack_record_def by (rule unpack_fields_texts [OF assms])

lemma unpack_texts_length: "length (unpack_texts fields bs off) = length fields"
  by (induction fields bs off rule: unpack_texts.induct) simp_all

lemma compute_record_size_snoc:
  "compute_record_size (fs @ [(fname, ftype, flen)]) = compute_record_size fs + flen"
  by (induction fs) auto

lemma compute_record_size_take_Suc:
  "k < length fields \<Longrightarrow>
   compute_record_size (take (Suc k) fields)
     = compute_record_size (take k fields) + snd (snd (fields ! k))"
  by (cases "fields ! k") (simp add: take_Suc_conv_app_nth compute_record_size_snoc)

lemma unpack_texts_nth:
  "k < length fields \<Longrightarrow>
   unpack_texts fields bs off ! k =
     (case fields ! k of (fname, ftype, flen) \<Rightarrow>
        chunk_text ftype
          (py_slice bs (off + compute_record_size (take k fields) - 1)
                       (off + compute_record_size (take k fields) - 1 + flen)))"
proof (induction fields bs off arbitrary: k rule: unpack_texts.induct)
  case (1 record_bytes offset)
  then show ?case by simp
next
  case (2 fname ftype flen fs record_bytes offset)
  show ?case
  proof (cases k)
    case 0
    then show ?thesis by simp
  next
    case (Suc j)
    then have "j < length fs" using "2.prems" by simp
    from "2.IH" [OF this] show ?thesis
      by (simp add: Suc algebra_simps split: prod.splits)
  qed
qed

subsection \<open>Packing and unpacking\<close>








lemma rstrip_zero_prefix: "prefix (rstrip_zero c) c"
proof -
  have "rev (dropWhile (\<lambda>b. b = 0) (rev c)) @ rev (takeWhile (\<lambda>b. b = 0) (rev c)) = c"
    using takeWhile_dropWhile_id [of "\<lambda>b. b = 0" "rev c"]
    by (metis rev_append rev_rev_ident)
  then show ?thesis unfolding rstrip_zero_def by (metis prefixI)
qed

lemma decode_text_subseq:
  "\<exists>e. utf8_encode (utf8_decode_ignore (rstrip_zero chunk)) = Inr e \<and> subseq e chunk"
proof -
  obtain e where e: "utf8_encode (utf8_decode_ignore (rstrip_zero chunk)) = Inr e"
    "subseq e (rstrip_zero chunk)"
    using encode_decode_subseq by blast
  have "subseq (rstrip_zero chunk) chunk"
    using rstrip_zero_prefix by (simp add: prefix_imp_subseq)
  then show ?thesis using e subseq_order.order_trans by blast
qed

lemma bytes_to_int4:
  assumes "a < 256" "b < 256" "c < 256" "d < 256"
  shows "bytes_to_int [a, b, c, d] =
     (if 128 \<le> a then int (16777216 * a + 65536 * b + 256 * c + d) - 4294967296
      else int (16777216 * a + 65536 * b + 256 * c + d))"
proof -
  have "(2147483648 \<le> int (16777216 * a + 65536 * b + 256 * c + d)) = (128 \<le> a)"
    using assms by auto
  then show ?thesis
    unfolding bytes_to_int_def Let_def unsigned_be4 by simp
qed




lemma field_ok_nonneg: "field_ok (fname, ftype, flen) \<Longrightarrow> 0 \<le> flen"
  by (auto simp: field_ok_def split: if_splits)

lemma compute_record_size_append:
  "compute_record_size (xs @ ys) = compute_record_size xs + compute_record_size ys - 1"
  by (induction xs) auto

lemma compute_record_size_ge: "list_all field_ok fs \<Longrightarrow> 1 \<le> compute_record_size fs"
proof (induction fs)
  case Nil
  then show ?case by simp
next
  case (Cons f fs)
  obtain fname ftype flen where f: "f = (fname, ftype, flen)" by (cases f) auto
  show ?case using Cons field_ok_nonneg [of fname ftype flen] by (simp add: f)
qed

lemma compute_record_size_take_le:
  assumes "list_all field_ok fs"
  shows "compute_record_size (take k fs) \<le> compute_record_size fs"
proof -
  have "list_all field_ok (drop k fs)"
    using assms by (metis append_take_drop_id list_all_append)
  then have "1 \<le> compute_record_size (drop k fs)" by (rule compute_record_size_ge)
  moreover have "compute_record_size fs
      = compute_record_size (take k fs) + compute_record_size (drop k fs) - 1"
    using compute_record_size_append [of "take k fs" "drop k fs"] by simp
  ultimately show ?thesis by linarith
qed

lemma py_slice_inside:
  assumes "0 \<le> i" "0 \<le> l" "i + l \<le> int (length xs)"
  shows "py_slice xs i (i + l) = take (nat l) (drop (nat i) xs)"
    and "int (length (py_slice xs i (i + l))) = l"
proof -
  show e: "py_slice xs i (i + l) = take (nat l) (drop (nat i) xs)"
    using assms by (simp add: py_slice_def Let_def)
  show "int (length (py_slice xs i (i + l))) = l"
    unfolding e using assms by simp
qed

lemma chunk_inside:
  assumes "list_all field_ok fields" "int (length record_bytes) = compute_record_size fields"
    "k < length fields" "fields ! k = (fname, ftype, flen)"
  shows "int (length (py_slice record_bytes (compute_record_size (take k fields))
                       (compute_record_size (take k fields) + flen))) = flen"
proof -
  have a: "list_all field_ok (take k fields)"
    using assms(1) by (metis append_take_drop_id list_all_append)
  have o: "0 \<le> compute_record_size (take k fields)"
    using compute_record_size_ge [OF a] by simp
  have "field_ok (fname, ftype, flen)"
    using assms(1,3,4) by (metis list_all_length)
  then have l: "0 \<le> flen" by (rule field_ok_nonneg)
  have "compute_record_size (take (Suc k) fields) \<le> compute_record_size fields"
    by (rule compute_record_size_take_le [OF assms(1)])
  then have "compute_record_size (take k fields) + flen \<le> int (length record_bytes)"
    using compute_record_size_take_Suc [OF assms(3)] assms(2,4) by simp
  from py_slice_inside(2) [OF o l this] show ?thesis .
qed

lemma length4:
  assumes "length xs = 4"
  shows "xs = [xs ! 0, xs ! 1, xs ! 2, xs ! 3]"
proof -
  from assms obtain a b c d where "xs = [a, b, c, d]"
    by (cases xs; simp; rename_tac r1; case_tac r1; simp; rename_tac r2; case_tac r2; simp;
        rename_tac r3; case_tac r3; simp)
  then show ?thesis by simp
qed

lemma bytes_to_int_signed32:
  assumes "length chunk = 4" "list_all (\<lambda>b. b < 256) chunk"
  shows "bytes_to_int chunk =
     (if 128 \<le> chunk ! 0
      then int (16777216 * chunk ! 0 + 65536 * chunk ! 1 + 256 * chunk ! 2 + chunk ! 3)
           - 4294967296
      else int (16777216 * chunk ! 0 + 65536 * chunk ! 1 + 256 * chunk ! 2 + chunk ! 3))"
proof -
  define a b c d where "a = chunk ! 0" and "b = chunk ! 1" and "c = chunk ! 2"
    and "d = chunk ! 3"
  have e: "chunk = [a, b, c, d]"
    unfolding a_def b_def c_def d_def by (rule length4 [OF assms(1)])
  have "a < 256" "b < 256" "c < 256" "d < 256"
    using assms(2) unfolding e by simp_all
  from bytes_to_int4 [OF this] show ?thesis
    unfolding a_def [symmetric] b_def [symmetric] c_def [symmetric] d_def [symmetric]
    unfolding e .
qed


lemmas ev = encodable_def field_ok_def ascii_def py_int_def int_strip_def int_space_def
  unsigned_value_def decimal_value_def digit_zeros_def MAX_STR_DIGITS_def
  pack_record_def pack_value_def unpack_record_def unpack_value_def py_slice_def
  py_repeat_def rstrip_zero_def int_to_bytes_def bytes_to_int_def unsigned_be_def
  encode_cp_def is_cont_def int_text_def Let_def

text \<open>What \<open>int\<close> reads: the digits of every script, here ARABIC-INDIC DIGIT THREE and a
  mix of scripts, with whitespace around the text but not inside it. The separator U+001F,
  which \<open>strip\<close> removes, is an error.\<close>

lemma py_int_examples:
  "py_int (ascii ''007'') = Some 7"
  "py_int [1635] = Some 3"
  "py_int [32, 45, 49, 95, 1633, 160] = Some (- 11)"
  "py_int [55, 31] = None"
  "py_int [45, 32, 49] = None"
  "py_int (ascii ''1__0'') = None"
  "py_strip [55, 31] = [55]"
  by (simp_all add: ev py_strip_def py_isspace_def)



text \<open>
  Claim C5, amended. For every schema whose \<open>int\<close> fields have length 4 and whose other
  fields have a length that is not negative, and every record of the schema's record size,
  \<open>unpack_record\<close> does not fail and returns one value for each field. The chunk of field \<open>k\<close>
  starts after the validity byte and the fields before it and has the length of the field. An
  \<open>int\<close> field is the decimal text of its 4 bytes read as a big-endian signed integer. Any
  other field is the chunk without its trailing zero bytes, decoded as UTF-8 where invalid
  bytes are dropped and nothing is put in their place: encoding the decoded text again gives
  a subsequence of the chunk.
\<close>

theorem unpack_record_total:
  assumes "list_all field_ok fields" "list_all (\<lambda>b. b < 256) record_bytes"
    "int (length record_bytes) = compute_record_size fields"
  shows "\<exists>vs. unpack_record fields record_bytes = Inr vs
     \<and> length vs = length fields
     \<and> (\<forall>k<length fields. case fields ! k of (fname, ftype, flen) \<Rightarrow>
          (let off = compute_record_size (take k fields);
               chunk = py_slice record_bytes off (off + flen)
           in int (length chunk) = flen
              \<and> (if ftype = ascii ''int''
                 then vs ! k = int_text (bytes_to_int chunk)
                      \<and> bytes_to_int chunk =
                          (if 128 \<le> chunk ! 0
                           then int (16777216 * chunk ! 0 + 65536 * chunk ! 1
                                     + 256 * chunk ! 2 + chunk ! 3) - 4294967296
                           else int (16777216 * chunk ! 0 + 65536 * chunk ! 1
                                     + 256 * chunk ! 2 + chunk ! 3))
                 else vs ! k = utf8_decode_ignore (rstrip_zero chunk)
                      \<and> (\<exists>enc. utf8_encode (vs ! k) = Inr enc \<and> subseq enc chunk))))"
proof -
  define vs where "vs = unpack_texts fields record_bytes 1"
  have un: "unpack_record fields record_bytes = Inr vs"
    unfolding vs_def by (rule unpack_record_texts [OF assms(1,2)])
  have lv: "length vs = length fields"
    unfolding vs_def by (rule unpack_texts_length)
  have each: "case fields ! k of (fname, ftype, flen) \<Rightarrow>
          (let off = compute_record_size (take k fields);
               chunk = py_slice record_bytes off (off + flen)
           in int (length chunk) = flen
              \<and> (if ftype = ascii ''int''
                 then vs ! k = int_text (bytes_to_int chunk)
                      \<and> bytes_to_int chunk =
                          (if 128 \<le> chunk ! 0
                           then int (16777216 * chunk ! 0 + 65536 * chunk ! 1
                                     + 256 * chunk ! 2 + chunk ! 3) - 4294967296
                           else int (16777216 * chunk ! 0 + 65536 * chunk ! 1
                                     + 256 * chunk ! 2 + chunk ! 3))
                 else vs ! k = utf8_decode_ignore (rstrip_zero chunk)
                      \<and> (\<exists>enc. utf8_encode (vs ! k) = Inr enc \<and> subseq enc chunk)))"
    if k: "k < length fields" for k
  proof -
    obtain fname ftype flen where f: "fields ! k = (fname, ftype, flen)"
      by (cases "fields ! k") auto
    define chunk where "chunk = py_slice record_bytes (compute_record_size (take k fields))
        (compute_record_size (take k fields) + flen)"
    have len: "int (length chunk) = flen"
      unfolding chunk_def by (rule chunk_inside [OF assms(1,3) k f])
    have by256: "list_all (\<lambda>b. b < 256) chunk"
      unfolding chunk_def by (rule py_slice_bytes [OF assms(2)])
    have v: "vs ! k = chunk_text ftype chunk"
      unfolding vs_def chunk_def using unpack_texts_nth [OF k, of record_bytes 1]
      by (simp add: f)
    have ok: "field_ok (fname, ftype, flen)"
      using assms(1) k f by (metis list_all_length)
    have body: "int (length chunk) = flen
              \<and> (if ftype = ascii ''int''
                 then vs ! k = int_text (bytes_to_int chunk)
                      \<and> bytes_to_int chunk =
                          (if 128 \<le> chunk ! 0
                           then int (16777216 * chunk ! 0 + 65536 * chunk ! 1
                                     + 256 * chunk ! 2 + chunk ! 3) - 4294967296
                           else int (16777216 * chunk ! 0 + 65536 * chunk ! 1
                                     + 256 * chunk ! 2 + chunk ! 3))
                 else vs ! k = utf8_decode_ignore (rstrip_zero chunk)
                      \<and> (\<exists>enc. utf8_encode (vs ! k) = Inr enc \<and> subseq enc chunk))"
    proof (cases "ftype = ascii ''int''")
      case True
      then have "flen = 4" using ok by (simp add: field_ok_def)
      then have "length chunk = 4" using len by simp
      from bytes_to_int_signed32 [OF this by256] show ?thesis
        using True len v by (simp add: chunk_text_def)
    next
      case False
      then show ?thesis
        using len v decode_text_subseq [of chunk] by (simp add: chunk_text_def)
    qed
    show ?thesis
      unfolding f prod.case Let_def chunk_def [symmetric] by (rule body)
  qed
  show ?thesis
    by (rule exI [of _ vs]) (use un lv each in blast)
qed

text \<open>A text field of 3 bytes holding \<open>A\<close>, the invalid byte 0xFF and \<open>B\<close>, and an \<open>int\<close>
  field holding the bytes of -2.\<close>

theorem unpack_record_total_witness:
  "list_all field_ok [(ascii ''t'', ascii ''str'', 3), (ascii ''n'', ascii ''int'', 4)]
   \<and> list_all (\<lambda>b. b < 256) [1, 65, 255, 66, 255, 255, 255, 254 :: nat]
   \<and> int (length [1, 65, 255, 66, 255, 255, 255, 254 :: nat])
       = compute_record_size [(ascii ''t'', ascii ''str'', 3), (ascii ''n'', ascii ''int'', 4)]
   \<and> unpack_record [(ascii ''t'', ascii ''str'', 3), (ascii ''n'', ascii ''int'', 4)]
        [1, 65, 255, 66, 255, 255, 255, 254] = Inr [ascii ''AB'', ascii ''-2'']"
proof -
  define F :: "field list"
    where "F = [(ascii ''t'', ascii ''str'', 3), (ascii ''n'', ascii ''int'', 4)]"
  define B :: "nat list" where "B = [1, 65, 255, 66, 255, 255, 255, 254]"
  have h1: "list_all field_ok F" by (simp add: F_def ev)
  have h2: "list_all (\<lambda>b. b < 256) B" by (simp add: B_def)
  have h3: "int (length B) = compute_record_size F" by (simp add: F_def B_def)
  have f0: "F ! 0 = (ascii ''t'', ascii ''str'', 3)"
    and f1: "F ! 1 = (ascii ''n'', ascii ''int'', 4)"
    and lf: "0 < length F" "1 < length F" "length F = 2"
    and t0: "compute_record_size (take 0 F) = 1" and t1: "compute_record_size (take 1 F) = 4"
    by (simp_all add: F_def)
  have s: "ascii ''str'' \<noteq> ascii ''int''" by (simp add: ev)
  have c0: "utf8_decode_ignore (rstrip_zero (py_slice B 1 (1 + 3))) = ascii ''AB''"
    by (simp add: B_def ev)
  have c1: "py_slice B 4 (4 + 4) = [255, 255, 255, 254]" by (simp add: B_def ev)
  have v1: "bytes_to_int [255, 255, 255, 254] = - 2" by (simp add: ev)
  have p: "int_text (- 2) = ascii ''-2''" by (simp add: ev nat_digits.simps)
  from unpack_record_total [OF h1 h2 h3] obtain vs where
    b: "unpack_record F B = Inr vs" "length vs = length F"
    and k: "\<forall>k<length F. case F ! k of (fname, ftype, flen) \<Rightarrow>
          (let off = compute_record_size (take k F);
               chunk = py_slice B off (off + flen)
           in int (length chunk) = flen
              \<and> (if ftype = ascii ''int''
                 then vs ! k = int_text (bytes_to_int chunk)
                      \<and> bytes_to_int chunk =
                          (if 128 \<le> chunk ! 0
                           then int (16777216 * chunk ! 0 + 65536 * chunk ! 1
                                     + 256 * chunk ! 2 + chunk ! 3) - 4294967296
                           else int (16777216 * chunk ! 0 + 65536 * chunk ! 1
                                     + 256 * chunk ! 2 + chunk ! 3))
                 else vs ! k = utf8_decode_ignore (rstrip_zero chunk)
                      \<and> (\<exists>enc. utf8_encode (vs ! k) = Inr enc \<and> subseq enc chunk)))"
    by blast
  have k0: "vs ! 0 = ascii ''AB''"
    using k [rule_format, OF lf(1)] unfolding f0 prod.case Let_def t0 c0
    using s by (simp only: if_False)
  have k1: "vs ! 1 = ascii ''-2''"
    using k [rule_format, OF lf(2)] unfolding f1 prod.case Let_def t1 c1 v1 p
    by (simp only: if_True)
  have "length vs = 2" using b(2) lf(3) by simp
  then have "vs = [vs ! 0, vs ! 1]"
    by (cases vs; simp; rename_tac r1; case_tac r1; simp)
  then have v: "vs = [ascii ''AB'', ascii ''-2'']" using k0 k1 by simp
  show ?thesis unfolding F_def [symmetric] B_def [symmetric]
    by (intro conjI h1 h2 h3 b(1) [unfolded v])
qed

text \<open>Claim C5 as stated says that a replacement marker stands for an invalid byte. The
  bytes \<open>A\<close>, 0xFF, \<open>B\<close> decode to \<open>AB\<close>, without the marker U+FFFD (65533).\<close>

theorem unpack_record_replacement_counterexample:
  "unpack_record [(ascii ''t'', ascii ''str'', 3)] [1, 65, 255, 66] = Inr [[65, 66]]
   \<and> unpack_record [(ascii ''t'', ascii ''str'', 3)] [1, 65, 255, 66] \<noteq> Inr [[65, 65533, 66]]"
  by (simp add: ev)


section \<open>The catalog load\<close>

subsection \<open>The strict decoder reads what the encoder writes\<close>

lemma sdec1: "c < 128 \<Longrightarrow> utf8_decode (c # rest) = decoded c (utf8_decode rest)"
  by simp






subsection \<open>The lines that are loaded\<close>










section \<open>The log\<close>

lemma logged_loggable: "loggable tokens \<Longrightarrow> logged tokens rs = rs"
  by (cases rs; cases "fst rs"; cases "utf8_encode (py_join [32] tokens)")
     (auto simp: logged_def log_operation_def loggable_def)

lemma logged_Raised: "logged tokens (Raised exc, s) = (Raised exc, s)"
  by (simp add: logged_def log_operation_def)

section \<open>Integers outside 32 bits\<close>

lemmas ev_cat = parse_line_def parse_field_def read_catalog_def py_split_def dat_filename_def
  decoded_def py_strip_def py_isspace_def

lemmas ev_file = find_record_page_slot_def isfile_def open_file_def path_char_def
  dat_filename_def ascii_def read_at_def PAGE_HEADER_SIZE_def NUM_SLOTS_def

lemma cat_T:
  "read_catalog (ascii ''T|1|1|n,int,4'' @ [10])
     = Inr [ascii ''T'' \<mapsto> Entry 1 1 [(ascii ''n'', ascii ''int'', 4)]]"
  by (simp add: ev ev_cat)

lemma find_T:
  "find_record_page_slot
     (Store (ascii ''T|1|1|n,int,4'' @ [10]) [ascii ''T.dat'' \<mapsto> []] (\<lambda>name mode. False))
     (ascii ''T'') v = Inr None"
  unfolding find_record_page_slot_def store.sel cat_T
  by (simp add: scan_pages.simps ev_file)

text \<open>
  Claim C9. The type \<open>T\<close> has one \<open>int\<close> field. The text \<open>2147483648\<close> parses as an integer,
  \<open>pack_record\<close> raises OverflowError on it, and \<open>handle_create_record\<close> lets the exception
  out: it does not return. A value that is no integer raises ValueError, which the handler
  catches and answers with a failure.
\<close>

theorem overflow_escapes_insert:
  "py_int (ascii ''2147483648'') = Some 2147483648
   \<and> pack_record [(ascii ''n'', ascii ''int'', 4)] [ascii ''2147483648''] = Inl OverflowError
   \<and> handle_create_record
        (Store (ascii ''T|1|1|n,int,4'' @ [10]) [ascii ''T.dat'' \<mapsto> []] (\<lambda>name mode. False))
        [ascii ''create'', ascii ''record'', ascii ''T'', ascii ''2147483648'']
       = (Raised OverflowError,
          Store (ascii ''T|1|1|n,int,4'' @ [10]) [ascii ''T.dat'' \<mapsto> []] (\<lambda>name mode. False))
   \<and> handle_create_record
        (Store (ascii ''T|1|1|n,int,4'' @ [10]) [ascii ''T.dat'' \<mapsto> []] (\<lambda>name mode. False))
        [ascii ''create'', ascii ''record'', ascii ''T'', ascii ''x1'']
       = (Returned EncodeError,
          Store (ascii ''T|1|1|n,int,4'' @ [10]) [ascii ''T.dat'' \<mapsto> []] (\<lambda>name mode. False))"
proof -
  define S where "S = Store (ascii ''T|1|1|n,int,4'' @ [10]) [ascii ''T.dat'' \<mapsto> []]
    (\<lambda>(name :: pystr) (mode :: open_mode). False)"
  have c: "read_catalog (catalog_meta S)
      = Inr [ascii ''T'' \<mapsto> Entry 1 1 [(ascii ''n'', ascii ''int'', 4)]]"
    unfolding S_def store.sel by (rule cat_T)
  have f: "find_record_page_slot S (ascii ''T'') v = Inr None" for v
    unfolding S_def by (rule find_T)
  have p: "py_int (ascii ''2147483648'') = Some 2147483648" by (simp add: ev)
  have o: "pack_record [(ascii ''n'', ascii ''int'', 4)] [ascii ''2147483648'']
      = Inl OverflowError"
    by (simp add: ev)
  have v: "pack_record [(ascii ''n'', ascii ''int'', 4)] [ascii ''x1''] = Inl ValueError"
    by (simp add: ev)
  have l: "loggable [ascii ''create'', ascii ''record'', ascii ''T'', ascii ''x1'']"
    by (simp add: loggable_def ascii_def encode_cp_def)
  have a: "handle_create_record S
        [ascii ''create'', ascii ''record'', ascii ''T'', ascii ''2147483648'']
       = (Raised OverflowError, S)"
    by (simp add: handle_create_record_def logged_Raised c f o py_index_def)
  have b: "handle_create_record S
        [ascii ''create'', ascii ''record'', ascii ''T'', ascii ''x1'']
       = (Returned EncodeError, S)"
    unfolding handle_create_record_def logged_loggable [OF l]
    by (simp add: c f v py_index_def)
  show ?thesis unfolding S_def [symmetric] by (intro conjI p o a b)
qed


section \<open>CreateType\<close>

subsection \<open>The catalog line of an accepted type\<close>












subsection \<open>The checks in order\<close>

lemma find_app:
  "find P (xs @ ys) = (case find P xs of None \<Rightarrow> find P ys | Some x \<Rightarrow> Some x)"
  by (induction xs) auto

lemma first_failed_append:
  "first_failed (xs @ ys)
     = (case first_failed xs of None \<Rightarrow> first_failed ys | Some r \<Rightarrow> Some r)"
  by (simp add: first_failed_def find_app split: option.splits)

lemma make_fields_eq:
  "make_fields ft idxs =
     (case first_failed (field_checks ft idxs) of
        Some r \<Rightarrow> Inl r
      | None \<Rightarrow>
          Inr (map (\<lambda>i. (ft ! (2 * i), ft ! (2 * i + 1),
                          if ft ! (2 * i + 1) = ascii ''int'' then 4 else 20)) idxs))"
proof (induction idxs)
  case Nil
  then show ?case by (simp add: field_checks_def first_failed_def)
next
  case (Cons i rest)
  have s: "field_checks ft (i # rest)
      = [(FieldNameLength, length (ft ! (2 * i)) \<le> 20),
         (FieldKind, ft ! (2 * i + 1) = ascii ''int'' \<or> ft ! (2 * i + 1) = ascii ''str'')]
        @ field_checks ft rest"
    by (simp add: field_checks_def)
  show ?case
    unfolding s first_failed_append make_fields.simps Cons
    by (auto simp: first_failed_def split: option.splits)
qed

lemma count_checks_failed:
  "first_failed (count_checks tname nf pk ft) =
     (if nf < 1 \<or> nf > 6 then Some FieldCount
      else if pk < 1 \<or> pk > nf then Some KeyIndex
      else if length tname > 12 then Some TypeNameLength
      else if int (length ft) \<noteq> nf * 2 then Some FieldTokenCount
      else None)"
  by (auto simp: count_checks_def first_failed_def)


text \<open>The handler, up to the moment it writes.\<close>

lemma handle_create_type_checks:
  assumes "6 \<le> length tokens" "py_int (tokens ! 3) = Some nf" "py_int (tokens ! 4) = Some pk"
    "loggable tokens"
  shows "handle_create_type s tokens =
     (case first_failed (count_checks (tokens ! 2) nf pk (drop 5 tokens)) of
        Some r \<Rightarrow> (Returned (Rejected r), s)
      | None \<Rightarrow>
          (case read_catalog (catalog_meta s) of
             Inl exc \<Rightarrow> (Raised exc, s)
           | Inr cat \<Rightarrow>
               if cat (tokens ! 2) \<noteq> None then (Returned DuplicateType, s)
               else
                 (case first_failed (field_checks (drop 5 tokens) [0..<nat nf]) of
                    Some r \<Rightarrow> (Returned (Rejected r), s)
                  | None \<Rightarrow>
                      (case write_catalog_entry s (tokens ! 2) nf pk
                              (created_fields (drop 5 tokens) nf) of
                         Inl exc \<Rightarrow> (Raised exc, s)
                       | Inr s1 \<Rightarrow>
                           if \<not> list_all path_char (dat_filename (tokens ! 2))
                           then (Raised ValueError, s1)
                           else if refused s1 (dat_filename (tokens ! 2)) WB
                           then (Returned IOFailure, s1)
                           else (Returned Success,
                                 Store (catalog_meta s1)
                                   ((dat_files s1)(dat_filename (tokens ! 2) \<mapsto> []))
                                   (refused s1))))))"
proof -
  have n: "\<not> length tokens < 6" using assms(1) by simp
  show ?thesis
    unfolding handle_create_type_def logged_loggable [OF assms(4)] assms(2,3)
      count_checks_failed make_fields_eq created_fields_def open_file_def
    using n by (auto split: option.splits sum.splits)
qed







lemmas ev_checks = first_failed_def shape_checks_def count_checks_def field_checks_def


text \<open>The request \<open>create type a/b 1 1 x int\<close> where the operating system refuses every
  path with a slash (no directory \<open>a\<close>): the handler returns a failure, and the catalog has
  the line of the type.\<close>

lemma create_type_refused:
  "handle_create_type (Store [] Map.empty (\<lambda>name mode. 47 \<in> set name))
     [ascii ''create'', ascii ''type'', ascii ''a/b'', ascii ''1'', ascii ''1'',
      ascii ''x'', ascii ''int'']
   = (Returned IOFailure,
      Store (ascii ''a/b|1|1|x,int,4'' @ [10]) Map.empty (\<lambda>name mode. 47 \<in> set name))"
proof -
  define tokens where "tokens = [ascii ''create'', ascii ''type'', ascii ''a/b'', ascii ''1'',
      ascii ''1'', ascii ''x'', ascii ''int'']"
  define s where "s = Store [] Map.empty (\<lambda>(name :: pystr) (mode :: open_mode). 47 \<in> set name)"
  have sel: "tokens ! 2 = ascii ''a/b''" "tokens ! 3 = ascii ''1''" "tokens ! 4 = ascii ''1''"
    "drop 5 tokens = [ascii ''x'', ascii ''int'']"
    by (simp_all add: tokens_def numeral_eq_Suc)
  have h1: "6 \<le> length tokens" by (simp add: tokens_def)
  have h2: "py_int (tokens ! 3) = Some 1" and h3: "py_int (tokens ! 4) = Some 1"
    unfolding sel by (simp_all add: ev)
  have h4: "loggable tokens"
    by (simp add: tokens_def loggable_def ascii_def encode_cp_def)
  have c: "read_catalog (catalog_meta s) = Inr Map.empty"
    by (simp add: s_def read_catalog_def py_split_def py_strip_def)
  have w: "write_catalog_entry s (ascii ''a/b'') 1 1 (created_fields [ascii ''x'', ascii ''int''] 1)
      = Inr (Store (ascii ''a/b|1|1|x,int,4'' @ [10]) Map.empty (refused s))"
    by (simp add: write_catalog_entry_def catalog_line_def created_fields_def py_str_def
        int_text_def MAX_STR_DIGITS_def nat_digits.simps ascii_def encode_cp_def s_def)
  have "handle_create_type s tokens
      = (Returned IOFailure, Store (ascii ''a/b|1|1|x,int,4'' @ [10]) Map.empty (refused s))"
    unfolding handle_create_type_checks [OF h1 h2 h3 h4] sel c sum.case w
    by (simp add: ev_checks dat_filename_def path_char_def ascii_def s_def)
  then show ?thesis unfolding s_def tokens_def by simp
qed



end
